theory Spec2Isabelle
  imports Main "HOL-Library.Word"
begin

section \<open>C and kernel conventions shared by the examples\<close>

text \<open>
  Integers of the C sources are mathematical integers with the conversions of the C
  types written out: \<open>u64\<close> is the conversion to a 64-bit unsigned type
  (\<open>size_t\<close>, \<open>unsigned long\<close>), \<open>s64\<close> the conversion to a 64-bit
  two's complement type (\<open>loff_t\<close>, \<open>time64_t\<close>, \<open>ktime_t\<close>); the kernel is
  built with wrapping signed arithmetic.
\<close>

type_synonym byte = "8 word"

definition u64 :: "int \<Rightarrow> nat" where
  "u64 x = nat (x mod 2 ^ 64)"

definition s64 :: "int \<Rightarrow> int" where
  "s64 x = (x + 2 ^ 63) mod 2 ^ 64 - 2 ^ 63"

definition s32 :: "int \<Rightarrow> int" where
  "s32 x = (x + 2 ^ 31) mod 2 ^ 32 - 2 ^ 31"

definition is_s64 :: "int \<Rightarrow> bool" where
  "is_s64 x = (- (2 ^ 63) \<le> x \<and> x < 2 ^ 63)"

definition EFAULT :: int where "EFAULT = 14"
definition EINVAL :: int where "EINVAL = 22"
definition ENOSPC :: int where "ENOSPC = 28"
definition ENOTTY :: int where "ENOTTY = 25"
definition ENOMEM :: int where "ENOMEM = 12"
definition ENODEV :: int where "ENODEV = 19"

subsection \<open>User memory\<close>

text \<open>
  \<open>copy_to_user\<close> and \<open>copy_from_user\<close> are kernel primitives, not code of the
  repository. They are modelled by their contract: bytes are transferred in address
  order up to the first address that is not accessible, the number of bytes that were
  \<^emph>\<open>not\<close> transferred is returned, and \<open>copy_from_user\<close> fills the part of
  the kernel destination it could not read with zero bytes.
\<close>

record user_space =
  umem :: "nat \<Rightarrow> byte"
  mapped :: "nat \<Rightarrow> bool"

definition access_len :: "user_space \<Rightarrow> nat \<Rightarrow> nat \<Rightarrow> nat" where
  "access_len us a n = length (takeWhile (mapped us) [a..<a + n])"

definition copy_to_user :: "user_space \<Rightarrow> nat \<Rightarrow> byte list \<Rightarrow> user_space \<times> nat" where
  "copy_to_user us to src =
     (let k = access_len us to (length src)
      in (us\<lparr>umem := (\<lambda>a. if to \<le> a \<and> a < to + k then src ! (a - to) else umem us a)\<rparr>,
          length src - k))"

definition copy_from_user :: "user_space \<Rightarrow> nat \<Rightarrow> nat \<Rightarrow> byte list \<times> nat" where
  "copy_from_user us from n =
     (let k = access_len us from n
      in (map (umem us) [from..<from + k] @ replicate (n - k) 0, n - k))"

section \<open>part3/simple-char: the byte-buffer character device\<close>

text \<open>
  \<open>struct simple_device\<close>: the 4096-byte array \<open>buffer\<close> and the fill level
  \<open>size\<close> (a \<open>size_t\<close>). Every file operation holds \<open>dev->lock\<close> from its first
  to its last access of the device, so each operation is one atomic state transformer.
  A result \<open>None\<close> stands for an access outside the array \<open>buffer\<close>, which the C
  code does not define.
\<close>

definition BUFFER_SIZE :: nat where
  "BUFFER_SIZE = 4096"

record simple_device =
  buffer :: "byte list"
  size_sd :: nat

record struct_file =
  f_pos :: int

definition SEEK_SET :: int where "SEEK_SET = 0"
definition SEEK_CUR :: int where "SEEK_CUR = 1"
definition SEEK_END :: int where "SEEK_END = 2"

definition schar_read ::
  "simple_device \<Rightarrow> user_space \<Rightarrow> nat \<Rightarrow> nat \<Rightarrow> int \<Rightarrow> (int \<times> user_space \<times> int) option" where
  "schar_read dev us buf count ppos =
     (if size_sd dev \<le> u64 ppos then Some (0, us, ppos)
      else
        let available = size_sd dev - u64 ppos;
            count' = (if count > available then available else count)
        in if 0 < count' \<and> \<not> (0 \<le> ppos \<and> nat ppos + count' \<le> BUFFER_SIZE) then None
           else
             (case copy_to_user us buf (take count' (drop (nat ppos) (buffer dev))) of
                (us', left) \<Rightarrow>
                  if left \<noteq> 0 then Some (- EFAULT, us', ppos)
                  else Some (int count', us', s64 (ppos + int count'))))"

definition schar_write ::
  "simple_device \<Rightarrow> user_space \<Rightarrow> nat \<Rightarrow> nat \<Rightarrow> int \<Rightarrow> (int \<times> simple_device \<times> int) option" where
  "schar_write dev us buf count ppos =
     (if int BUFFER_SIZE \<le> ppos then Some (- ENOSPC, dev, ppos)
      else
        let space = u64 (int BUFFER_SIZE - ppos);
            count' = (if count > space then space else count)
        in if 0 < count' \<and> \<not> (0 \<le> ppos \<and> nat ppos + count' \<le> BUFFER_SIZE) then None
           else
             (case copy_from_user us buf count' of
                (bytes, left) \<Rightarrow>
                  let buffer' = take (nat ppos) (buffer dev) @ bytes
                                  @ drop (nat ppos + count') (buffer dev)
                  in if left \<noteq> 0 then Some (- EFAULT, dev\<lparr>buffer := buffer'\<rparr>, ppos)
                     else
                       let ppos' = s64 (ppos + int count')
                       in Some (int count',
                                dev\<lparr>buffer := buffer',
                                    size_sd := (if u64 ppos' > size_sd dev then u64 ppos'
                                                else size_sd dev)\<rparr>,
                                ppos')))"

definition llseek_finish :: "struct_file \<Rightarrow> int \<Rightarrow> int \<times> struct_file" where
  "llseek_finish filp newpos =
     (if newpos < 0 then (- EINVAL, filp) else (newpos, filp\<lparr>f_pos := newpos\<rparr>))"

definition simple_llseek :: "simple_device \<Rightarrow> struct_file \<Rightarrow> int \<Rightarrow> int \<Rightarrow> int \<times> struct_file" where
  "simple_llseek dev filp offset whence =
     (if whence = SEEK_SET then llseek_finish filp offset
      else if whence = SEEK_CUR then llseek_finish filp (s64 (f_pos filp + offset))
      else if whence = SEEK_END then llseek_finish filp (s64 (int (size_sd dev) + offset))
      else (- EINVAL, filp))"


text \<open>
  \<open>simple_init\<close> leaves the statically allocated (zeroed) device with \<open>size = 0\<close>.
\<close>

definition simple_dev_init :: simple_device where
  "simple_dev_init = \<lparr>buffer = replicate BUFFER_SIZE 0, size_sd = 0\<rparr>"

text \<open>
  A sequence of file operations on one open file. \<open>read(2)\<close> and \<open>write(2)\<close> hand
  the file position \<open>f_pos\<close> to the driver as \<open>*ppos\<close> and store the driver's
  \<open>*ppos\<close> back; \<open>lseek(2)\<close> calls \<open>simple_llseek\<close>.
\<close>

datatype schar_op = Read nat nat | Write nat nat | Llseek int int

type_synonym schar_state = "simple_device \<times> struct_file \<times> user_space"

fun schar_step :: "schar_op \<Rightarrow> schar_state \<Rightarrow> (int \<times> schar_state) option" where
  "schar_step (Read buf count) (dev, filp, us) =
     (case schar_read dev us buf count (f_pos filp) of
        None \<Rightarrow> None
      | Some (ret, us', pos') \<Rightarrow> Some (ret, dev, filp\<lparr>f_pos := pos'\<rparr>, us'))"
| "schar_step (Write buf count) (dev, filp, us) =
     (case schar_write dev us buf count (f_pos filp) of
        None \<Rightarrow> None
      | Some (ret, dev', pos') \<Rightarrow> Some (ret, dev', filp\<lparr>f_pos := pos'\<rparr>, us))"
| "schar_step (Llseek offset whence) (dev, filp, us) =
     (case simple_llseek dev filp offset whence of
        (ret, filp') \<Rightarrow> Some (ret, dev, filp', us))"

fun schar_run :: "schar_op list \<Rightarrow> schar_state \<Rightarrow> schar_state option" where
  "schar_run [] s = Some s"
| "schar_run (x # xs) s =
     (case schar_step x s of None \<Rightarrow> None | Some (ret, s') \<Rightarrow> schar_run xs s')"

text \<open>The arguments of an operation are values of their C types.\<close>

fun schar_op_ok :: "schar_op \<Rightarrow> bool" where
  "schar_op_ok (Llseek offset whence) = is_s64 offset"
| "schar_op_ok _ = True"

text \<open>
  The device invariant: the array has its declared length and the fill level does not
  exceed it. The file position of an open file is a non-negative \<open>loff_t\<close>.
\<close>

definition sd_inv :: "simple_device \<Rightarrow> bool" where
  "sd_inv dev = (length (buffer dev) = BUFFER_SIZE \<and> size_sd dev \<le> BUFFER_SIZE)"

definition schar_inv :: "schar_state \<Rightarrow> bool" where
  "schar_inv s = (case s of (dev, filp, us) \<Rightarrow> sd_inv dev \<and> 0 \<le> f_pos filp \<and> f_pos filp < 2 ^ 63)"

text \<open>All of a user range is accessible.\<close>

definition user_ok :: "user_space \<Rightarrow> nat \<Rightarrow> nat \<Rightarrow> bool" where
  "user_ok us a n = list_all (mapped us) [a..<a + n]"

text \<open>Concrete inputs used to exercise the operations.\<close>

definition user_unmapped :: user_space where
  "user_unmapped = \<lparr>umem = (\<lambda>a. 0), mapped = (\<lambda>a. False)\<rparr>"

definition user_flat :: user_space where
  "user_flat = \<lparr>umem = (\<lambda>a. 7), mapped = (\<lambda>a. True)\<rparr>"

definition sd_four :: simple_device where
  "sd_four = \<lparr>buffer = [1, 2, 3, 4] @ replicate 4092 0, size_sd = 4\<rparr>"

section \<open>part3/ioctl-device: the ioctl character device\<close>

unbundle bit_operations_syntax

text \<open>
  The command encoding of \<open>asm-generic/ioctl.h\<close> (a kernel header, not code of the
  repository): bits 0-7 hold the command number, bits 8-15 the magic, bits 16-29 the
  argument size and bits 30-31 the direction. Isabelle names start with a letter, so
  \<open>_IOC\<close>, \<open>_IO\<close>, \<open>_IOC_TYPE\<close>, ... lose their underscore.
\<close>

definition IOC :: "32 word \<Rightarrow> 32 word \<Rightarrow> 32 word \<Rightarrow> 32 word \<Rightarrow> 32 word" where
  "IOC dir type nr sz = push_bit 30 dir OR push_bit 8 type OR nr OR push_bit 16 sz"

definition IOC_NONE :: "32 word" where "IOC_NONE = 0"
definition IOC_WRITE :: "32 word" where "IOC_WRITE = 1"
definition IOC_READ :: "32 word" where "IOC_READ = 2"

definition IO :: "32 word \<Rightarrow> 32 word \<Rightarrow> 32 word" where
  "IO type nr = IOC IOC_NONE type nr 0"

definition IOR :: "32 word \<Rightarrow> 32 word \<Rightarrow> 32 word \<Rightarrow> 32 word" where
  "IOR type nr sz = IOC IOC_READ type nr sz"

definition IOW :: "32 word \<Rightarrow> 32 word \<Rightarrow> 32 word \<Rightarrow> 32 word" where
  "IOW type nr sz = IOC IOC_WRITE type nr sz"

definition IOWR :: "32 word \<Rightarrow> 32 word \<Rightarrow> 32 word \<Rightarrow> 32 word" where
  "IOWR type nr sz = IOC (IOC_READ OR IOC_WRITE) type nr sz"

definition IOC_TYPE :: "32 word \<Rightarrow> 32 word" where
  "IOC_TYPE cmd = drop_bit 8 cmd AND 0xff"

definition IOC_NR :: "32 word \<Rightarrow> 32 word" where
  "IOC_NR cmd = cmd AND 0xff"

text \<open>
  \<open>ioctl_example.h\<close>. The sizes are those of an LP64 target: \<open>int\<close> has 4 bytes,
  \<open>struct ioctl_config\<close> 40 and \<open>struct ioctl_stats\<close> 32 (three \<open>unsigned long\<close>,
  an \<open>int\<close> and 4 bytes of padding).
\<close>

definition IOCTL_MAGIC :: "32 word" where "IOCTL_MAGIC = 0x45"
definition IOCTL_MAXNR :: "32 word" where "IOCTL_MAXNR = 5"

definition SIZEOF_INT :: nat where "SIZEOF_INT = 4"
definition SIZEOF_CONFIG :: nat where "SIZEOF_CONFIG = 40"
definition SIZEOF_STATS :: nat where "SIZEOF_STATS = 32"
definition NAME_SIZE :: nat where "NAME_SIZE = 32"

definition IOCTL_RESET :: "32 word" where
  "IOCTL_RESET = IO IOCTL_MAGIC 0"
definition IOCTL_GET_STATS :: "32 word" where
  "IOCTL_GET_STATS = IOR IOCTL_MAGIC 1 (of_nat SIZEOF_STATS)"
definition IOCTL_GET_VALUE :: "32 word" where
  "IOCTL_GET_VALUE = IOR IOCTL_MAGIC 2 (of_nat SIZEOF_INT)"
definition IOCTL_SET_CONFIG :: "32 word" where
  "IOCTL_SET_CONFIG = IOW IOCTL_MAGIC 3 (of_nat SIZEOF_CONFIG)"
definition IOCTL_SET_VALUE :: "32 word" where
  "IOCTL_SET_VALUE = IOW IOCTL_MAGIC 4 (of_nat SIZEOF_INT)"
definition IOCTL_XFER_CONFIG :: "32 word" where
  "IOCTL_XFER_CONFIG = IOWR IOCTL_MAGIC 5 (of_nat SIZEOF_CONFIG)"

record ioctl_config =
  config_speed :: int
  config_mode :: int
  config_name :: "byte list"

record ioctl_stats =
  reads :: "64 word"
  writes :: "64 word"
  ioctls :: "64 word"
  stats_last_error :: int

record ioctl_device =
  speed :: int
  mode :: int
  name :: "byte list"
  value_dev :: int
  read_count :: "64 word"
  write_count :: "64 word"
  ioctl_count :: "64 word"
  last_error :: int

text \<open>
  The objects that cross the user boundary, as little-endian byte sequences. The
  padding of the \<open>struct ioctl_stats\<close> on the kernel stack is never written by the
  driver; its four bytes are the parameter \<open>residue\<close>.
\<close>

definition enc_int :: "int \<Rightarrow> byte list" where
  "enc_int x = map (\<lambda>i. ucast (drop_bit (8 * i) (word_of_int x :: 32 word))) [0..<4]"

definition dec_int :: "byte list \<Rightarrow> int" where
  "dec_int bs = sint (word_of_nat (horner_sum unat 256 bs) :: 32 word)"

definition enc_ulong :: "64 word \<Rightarrow> byte list" where
  "enc_ulong w = map (\<lambda>i. ucast (drop_bit (8 * i) w)) [0..<8]"

definition encode_config :: "ioctl_config \<Rightarrow> byte list" where
  "encode_config c = enc_int (config_speed c) @ enc_int (config_mode c) @ config_name c"

definition decode_config :: "byte list \<Rightarrow> ioctl_config" where
  "decode_config bs =
     \<lparr>config_speed = dec_int (take 4 bs), config_mode = dec_int (take 4 (drop 4 bs)),
      config_name = take NAME_SIZE (drop 8 bs)\<rparr>"

definition encode_stats :: "ioctl_stats \<Rightarrow> byte list \<Rightarrow> byte list" where
  "encode_stats st residue =
     enc_ulong (reads st) @ enc_ulong (writes st) @ enc_ulong (ioctls st)
       @ enc_int (stats_last_error st) @ take 4 residue"

text \<open>
  \<open>strscpy(dst, src, n)\<close>: the characters of \<open>src\<close> before its first NUL, at most
  \<open>n - 1\<close> of them, then a NUL; the rest of \<open>dst\<close> stays as it was.
\<close>

definition strscpy :: "byte list \<Rightarrow> byte list \<Rightarrow> nat \<Rightarrow> byte list" where
  "strscpy dst src n =
     (let s = take (n - 1) (takeWhile (\<lambda>b. b \<noteq> 0) src)
      in s @ [0] @ drop (length s + 1) dst)"

text \<open>\<open>put_user\<close> and \<open>get_user\<close> transfer one scalar or fail as a whole.\<close>

definition put_user :: "user_space \<Rightarrow> nat \<Rightarrow> byte list \<Rightarrow> user_space \<times> bool" where
  "put_user us a bs =
     (if list_all (mapped us) [a..<a + length bs] then (fst (copy_to_user us a bs), True)
      else (us, False))"

definition get_user :: "user_space \<Rightarrow> nat \<Rightarrow> nat \<Rightarrow> byte list option" where
  "get_user us a n =
     (if list_all (mapped us) [a..<a + n] then Some (map (umem us) [a..<a + n]) else None)"

text \<open>
  \<open>ioctl_ioctl\<close>. The two checks come before \<open>mutex_lock\<close> and the increment of
  \<open>ioctl_count\<close>; the \<open>switch\<close> over the six command constants follows.
\<close>

definition ioctl_ioctl ::
  "ioctl_device \<Rightarrow> user_space \<Rightarrow> 32 word \<Rightarrow> nat \<Rightarrow> byte list \<Rightarrow> int \<times> ioctl_device \<times> user_space" where
  "ioctl_ioctl dev0 us cmd arg residue =
     (if IOC_TYPE cmd \<noteq> IOCTL_MAGIC then (- ENOTTY, dev0, us)
      else if IOC_NR cmd > IOCTL_MAXNR then (- ENOTTY, dev0, us)
      else
        let dev = dev0\<lparr>ioctl_count := ioctl_count dev0 + 1\<rparr> in
        if cmd = IOCTL_RESET then
          (0, dev\<lparr>speed := 0, mode := 0, value_dev := 0, name := replicate NAME_SIZE 0,
                 read_count := 0, write_count := 0, ioctl_count := 0, last_error := 0\<rparr>, us)
        else if cmd = IOCTL_GET_STATS then
          (case copy_to_user us arg
                  (encode_stats \<lparr>reads = read_count dev, writes = write_count dev,
                                 ioctls = ioctl_count dev, stats_last_error = last_error dev\<rparr>
                     residue) of
             (us', left) \<Rightarrow>
               if left \<noteq> 0 then (- EFAULT, dev\<lparr>last_error := - EFAULT\<rparr>, us')
               else (0, dev, us'))
        else if cmd = IOCTL_GET_VALUE then
          (case put_user us arg (enc_int (value_dev dev)) of
             (us', done) \<Rightarrow>
               if \<not> done then (- EFAULT, dev\<lparr>last_error := - EFAULT\<rparr>, us')
               else (0, dev, us'))
        else if cmd = IOCTL_SET_CONFIG then
          (case copy_from_user us arg SIZEOF_CONFIG of
             (bytes, left) \<Rightarrow>
               if left \<noteq> 0 then (- EFAULT, dev\<lparr>last_error := - EFAULT\<rparr>, us)
               else
                 let config = decode_config bytes in
                 if config_speed config < 0 \<or> config_speed config > 1000 then
                   (- EINVAL, dev\<lparr>last_error := - EINVAL\<rparr>, us)
                 else if config_mode config < 0 \<or> config_mode config > 3 then
                   (- EINVAL, dev\<lparr>last_error := - EINVAL\<rparr>, us)
                 else
                   (0, dev\<lparr>speed := config_speed config, mode := config_mode config,
                          name := strscpy (name dev) (config_name config) NAME_SIZE\<rparr>, us))
        else if cmd = IOCTL_SET_VALUE then
          (case get_user us arg SIZEOF_INT of
             None \<Rightarrow> (- EFAULT, dev\<lparr>last_error := - EFAULT\<rparr>, us)
           | Some bytes \<Rightarrow> (0, dev\<lparr>value_dev := dec_int bytes\<rparr>, us))
        else if cmd = IOCTL_XFER_CONFIG then
          (case copy_from_user us arg SIZEOF_CONFIG of
             (bytes, left) \<Rightarrow>
               if left \<noteq> 0 then (- EFAULT, dev\<lparr>last_error := - EFAULT\<rparr>, us)
               else
                 let config = decode_config bytes;
                     config' = config\<lparr>config_speed := speed dev, config_mode := mode dev,
                                       config_name :=
                                         strscpy (config_name config) (name dev) NAME_SIZE\<rparr>
                 in (case copy_to_user us arg (encode_config config') of
                       (us', left') \<Rightarrow>
                         if left' \<noteq> 0 then (- EFAULT, dev\<lparr>last_error := - EFAULT\<rparr>, us')
                         else (0, dev, us')))
        else (- ENOTTY, dev\<lparr>last_error := - ENOTTY\<rparr>, us))"

text \<open>
  \<open>ioctl_init\<close> leaves the statically allocated device zeroed but for its name.
\<close>

definition ioctl_dev_init :: ioctl_device where
  "ioctl_dev_init =
     \<lparr>speed = 0, mode = 0,
      name = strscpy (replicate NAME_SIZE 0) (map of_char ''default'') NAME_SIZE,
      value_dev = 0, read_count = 0, write_count = 0, ioctl_count = 0, last_error = 0\<rparr>"

section \<open>part7/threaded-irq-demo: the simulated interrupt and its ring buffer\<close>

text \<open>
  \<open>struct irq_demo_device\<close>. The \<open>int\<close> fields \<open>data_head\<close> and \<open>data_count\<close> are
  integers with the 32-bit wrap-around written out; the \<open>atomic_t\<close>, \<open>u32\<close> and
  \<open>u64\<close> fields are words. The timer is its pending expiry (in jiffies), \<open>None\<close>
  when it is not armed. Each function is a state transformer; the calls of
  \<open>mutex_lock\<close> and \<open>mutex_unlock\<close> and the order of the accesses of the ring
  buffer are recorded further down, function by function. \<open>None\<close> as a result
  stands for an index outside \<open>data_buffer\<close>.
\<close>

definition IRQ_BUFFER_SIZE :: int where
  "IRQ_BUFFER_SIZE = 64"

datatype irqreturn = IRQ_NONE | IRQ_HANDLED | IRQ_WAKE_THREAD

record irq_demo_device =
  timer :: "nat option"
  pending_irq :: "32 word"
  hw_data :: "32 word"
  data_buffer :: "32 word list"
  data_head :: int
  data_count :: int
  hardirq_count :: "32 word"
  thread_count :: "32 word"
  spurious_count :: "32 word"
  last_irq_time :: "64 word"
  total_latency_ns :: "64 word"
  running :: bool
  interval_ms :: "32 word"

text \<open>The remainder of C: the sign of the dividend, the magnitude of the remainder.\<close>

definition c_rem :: "int \<Rightarrow> int \<Rightarrow> int" where
  "c_rem a b = sgn a * (\<bar>a\<bar> mod \<bar>b\<bar>)"

text \<open>
  \<open>mod_timer(&dev->timer, jiffies + msecs_to_jiffies(dev->interval_ms))\<close>; the
  kernel's \<open>msecs_to_jiffies\<close> is the parameter \<open>m2j\<close>.
\<close>

definition mod_timer_interval :: "(32 word \<Rightarrow> nat) \<Rightarrow> nat \<Rightarrow> irq_demo_device \<Rightarrow> irq_demo_device" where
  "mod_timer_interval m2j jiffies dev =
     dev\<lparr>timer := Some ((jiffies + m2j (interval_ms dev)) mod 2 ^ 64)\<rparr>"

definition trigger_simulated_irq ::
  "(32 word \<Rightarrow> nat) \<Rightarrow> nat \<Rightarrow> 32 word \<Rightarrow> 64 word \<Rightarrow> irq_demo_device \<Rightarrow> irq_demo_device" where
  "trigger_simulated_irq m2j jiffies random now dev =
     (if \<not> running dev then dev
      else mod_timer_interval m2j jiffies
             (dev\<lparr>hw_data := random AND 0xFFFF, pending_irq := 1, last_irq_time := now\<rparr>))"

definition demo_hardirq :: "irq_demo_device \<Rightarrow> irqreturn \<times> irq_demo_device" where
  "demo_hardirq dev =
     (if pending_irq dev = 0 then (IRQ_NONE, dev\<lparr>spurious_count := spurious_count dev + 1\<rparr>)
      else (IRQ_WAKE_THREAD, dev\<lparr>pending_irq := 0, hardirq_count := hardirq_count dev + 1\<rparr>))"

definition demo_thread_handler :: "64 word \<Rightarrow> irq_demo_device \<Rightarrow> (irqreturn \<times> irq_demo_device) option" where
  "demo_thread_handler now dev =
     (let latency = now - last_irq_time dev;
          dev1 = dev\<lparr>thread_count := thread_count dev + 1,
                     total_latency_ns := total_latency_ns dev + latency\<rparr>
      in if \<not> (0 \<le> data_head dev \<and> data_head dev < IRQ_BUFFER_SIZE) then None
         else Some (IRQ_HANDLED,
                dev1\<lparr>data_buffer := (data_buffer dev)[nat (data_head dev) := hw_data dev],
                     data_head := c_rem (s32 (data_head dev + 1)) IRQ_BUFFER_SIZE,
                     data_count := (if data_count dev < IRQ_BUFFER_SIZE
                                    then s32 (data_count dev + 1) else data_count dev)\<rparr>))"

text \<open>
  \<open>data_show\<close> prints a header with the number of entries and then the entries, oldest
  first. The seq_file output is the list of printed lines.
\<close>

datatype seq_line = Header int | Entry int "32 word"

definition data_show_idx :: "irq_demo_device \<Rightarrow> int \<Rightarrow> int \<Rightarrow> int" where
  "data_show_idx dev count i =
     c_rem (s32 (s32 (s32 (data_head dev - count) + i) + IRQ_BUFFER_SIZE)) IRQ_BUFFER_SIZE"

definition data_show_entry :: "irq_demo_device \<Rightarrow> int \<Rightarrow> int \<Rightarrow> seq_line option" where
  "data_show_entry dev count i =
     (let idx = data_show_idx dev count i
      in if 0 \<le> idx \<and> idx < IRQ_BUFFER_SIZE then Some (Entry i (data_buffer dev ! nat idx))
         else None)"

definition data_show :: "irq_demo_device option \<Rightarrow> (int \<times> seq_line list) option" where
  "data_show demo_dev =
     (case demo_dev of
        None \<Rightarrow> Some (- ENODEV, [])
      | Some dev \<Rightarrow>
          let count = data_count dev
          in (case those (map (\<lambda>i. data_show_entry dev count (int i)) [0..<nat count]) of
                None \<Rightarrow> None
              | Some entries \<Rightarrow> Some (0, Header count # entries)))"

text \<open>
  \<open>control_write\<close>: at most 31 bytes of the user's buffer are the command; one
  trailing newline is dropped, and the command is the C string that results. The
  kernel's \<open>kstrtouint\<close> (base 10) is the parameter of that name. The value
  returned on success is the \<open>size_t count\<close> converted to \<open>ssize_t\<close>.
\<close>

definition cstr :: "string \<Rightarrow> byte list" where
  "cstr s = map of_char s"

definition control_command :: "byte list \<Rightarrow> byte list" where
  "control_command bytes =
     (let len = length bytes;
          cmd = (if len > 0 \<and> bytes ! (len - 1) = 10 then bytes[len - 1 := 0] else bytes)
      in takeWhile (\<lambda>b. b \<noteq> 0) cmd)"

definition control_write ::
  "(byte list \<Rightarrow> 32 word option) \<Rightarrow> (32 word \<Rightarrow> nat) \<Rightarrow> nat \<Rightarrow>
   irq_demo_device option \<Rightarrow> user_space \<Rightarrow> nat \<Rightarrow> nat \<Rightarrow> int \<times> irq_demo_device option" where
  "control_write kstrtouint m2j jiffies demo_dev us buf count =
     (case demo_dev of
        None \<Rightarrow> (- ENODEV, None)
      | Some dev \<Rightarrow>
          (case copy_from_user us buf (min count 31) of
             (bytes, left) \<Rightarrow>
               if left \<noteq> 0 then (- EFAULT, Some dev)
               else
                 let cmd = control_command bytes in
                 if cmd = cstr ''start'' then
                   (s64 (int count),
                    Some (if \<not> running dev
                          then mod_timer_interval m2j jiffies (dev\<lparr>running := True\<rparr>)
                          else dev))
                 else if cmd = cstr ''stop'' then
                   (s64 (int count), Some (dev\<lparr>running := False, timer := None\<rparr>))
                 else if cmd = cstr ''reset'' then
                   (s64 (int count),
                    Some (dev\<lparr>hardirq_count := 0, thread_count := 0, spurious_count := 0,
                              total_latency_ns := 0, data_count := 0, data_head := 0\<rparr>))
                 else if take 9 cmd = cstr ''interval '' then
                   (s64 (int count),
                    Some (case kstrtouint (drop 9 cmd) of
                            None \<Rightarrow> dev
                          | Some interval \<Rightarrow>
                              if interval > 0 then dev\<lparr>interval_ms := interval\<rparr> else dev))
                 else (- EINVAL, Some dev)))"

text \<open>
  \<open>demo_probe\<close> and \<open>demo_remove\<close>. \<open>devm_kzalloc\<close> returns zeroed memory or fails
  (the parameter \<open>alloc_ok\<close>); \<open>proc_mkdir\<close> may fail too (\<open>mkdir_ok\<close>). The globals
  are the pointer \<open>demo_dev\<close>, which aliases the driver data of the platform device,
  the pointer \<open>proc_dir\<close> (whether it is non-NULL) and the entries that exist in the
  proc directory of the driver. When \<open>proc_mkdir\<close> fails nothing is created; when
  \<open>proc_dir\<close> is NULL nothing is removed.
\<close>

record irq_globals =
  demo_dev :: "irq_demo_device option"
  proc_dir :: bool
  proc_entries :: "string list"

definition irq_demo_zero :: irq_demo_device where
  "irq_demo_zero =
     \<lparr>timer = None, pending_irq = 0, hw_data = 0, data_buffer = replicate 64 0,
      data_head = 0, data_count = 0, hardirq_count = 0, thread_count = 0, spurious_count = 0,
      last_irq_time = 0, total_latency_ns = 0, running = False, interval_ms = 0\<rparr>"

definition demo_proc_names :: "string list" where
  "demo_proc_names = [''stats'', ''data'', ''control'']"

definition demo_probe :: "bool \<Rightarrow> bool \<Rightarrow> irq_globals \<Rightarrow> int \<times> irq_globals" where
  "demo_probe alloc_ok mkdir_ok g =
     (if \<not> alloc_ok then (- ENOMEM, g)
      else
        let dev = irq_demo_zero\<lparr>pending_irq := 0, hardirq_count := 0, thread_count := 0,
                                spurious_count := 0, interval_ms := 100, running := False,
                                timer := None\<rparr>
        in (0, g\<lparr>demo_dev := Some dev, proc_dir := mkdir_ok,
                  proc_entries := (if mkdir_ok then proc_entries g @ demo_proc_names
                                   else proc_entries g)\<rparr>))"

definition demo_remove :: "irq_demo_device \<Rightarrow> irq_globals \<Rightarrow> int \<times> irq_demo_device \<times> irq_globals" where
  "demo_remove dev g =
     (0, dev\<lparr>running := False, timer := None\<rparr>,
      g\<lparr>demo_dev := None,
        proc_entries := (if proc_dir g
                         then filter (\<lambda>e. e \<notin> set demo_proc_names) (proc_entries g)
                         else proc_entries g)\<rparr>)"

definition irq_globals_init :: irq_globals where
  "irq_globals_init = \<lparr>demo_dev = None, proc_dir = False, proc_entries = []\<rparr>"

text \<open>
  \<open>stats_show\<close> prints the control fields, the three counters, the average latency
  and \<open>data_count\<close>. It takes no lock. The average is an unsigned 64-bit division by
  the thread count, made only when that count is positive.
\<close>

record stats_report =
  rep_running :: bool
  rep_interval :: "32 word"
  rep_hardirq :: int
  rep_thread :: int
  rep_spurious :: int
  rep_avg_latency :: "64 word"
  rep_data_count :: int

definition stats_show :: "irq_demo_device option \<Rightarrow> int \<times> stats_report option" where
  "stats_show dev_ptr =
     (case dev_ptr of
        None \<Rightarrow> (- ENODEV, None)
      | Some dev \<Rightarrow>
          let thread_cnt = sint (thread_count dev);
              avg_latency = (if 0 < thread_cnt
                             then total_latency_ns dev div word_of_int thread_cnt else 0)
          in (0, Some \<lparr>rep_running = running dev, rep_interval = interval_ms dev,
                        rep_hardirq = sint (hardirq_count dev), rep_thread = thread_cnt,
                        rep_spurious = sint (spurious_count dev),
                        rep_avg_latency = avg_latency, rep_data_count = data_count dev\<rparr>))"

text \<open>
  The accesses of the ring buffer. For each function, the \<open>mutex_lock\<close> and
  \<open>mutex_unlock\<close> calls on \<open>data_mutex\<close> and the loads and stores of the three
  fields \<open>data_buffer\<close>, \<open>data_head\<close> and \<open>data_count\<close>, in the order of the
  statements of the function body. \<open>trigger_simulated_irq\<close> and \<open>demo_hardirq\<close>
  touch none of the three fields.
\<close>

datatype ring_field = Data_buffer | Data_head | Data_count

datatype ring_event = Mutex_lock | Mutex_unlock | Load ring_field | Store ring_field

definition demo_thread_handler_events :: "irq_demo_device \<Rightarrow> ring_event list" where
  "demo_thread_handler_events dev =
     [Mutex_lock,
      Load Data_head, Store Data_buffer,
      Load Data_head, Store Data_head,
      Load Data_count]
     @ (if data_count dev < IRQ_BUFFER_SIZE then [Load Data_count, Store Data_count] else [])
     @ [Mutex_unlock]"

definition data_show_events :: "irq_demo_device option \<Rightarrow> ring_event list" where
  "data_show_events dev_ptr =
     (case dev_ptr of
        None \<Rightarrow> []
      | Some dev \<Rightarrow>
          [Mutex_lock, Load Data_count]
          @ concat (map (\<lambda>i. [Load Data_head, Load Data_buffer]) [0..<nat (data_count dev)])
          @ [Mutex_unlock])"

definition control_write_events ::
  "irq_demo_device option \<Rightarrow> user_space \<Rightarrow> nat \<Rightarrow> nat \<Rightarrow> ring_event list" where
  "control_write_events dev_ptr us buf count =
     (case dev_ptr of
        None \<Rightarrow> []
      | Some dev \<Rightarrow>
          (case copy_from_user us buf (min count 31) of
             (bytes, left) \<Rightarrow>
               if left = 0 \<and> control_command bytes = cstr ''reset''
               then [Mutex_lock, Store Data_count, Store Data_head, Mutex_unlock]
               else []))"

definition stats_show_events :: "irq_demo_device option \<Rightarrow> ring_event list" where
  "stats_show_events dev_ptr = (case dev_ptr of None \<Rightarrow> [] | Some dev \<Rightarrow> [Load Data_count])"

text \<open>
  A sequence of accesses keeps the lock discipline when the mutex is taken only while
  free, released only while held, every load and store happens while it is held, and it
  is free at the end.
\<close>

fun lock_discipline :: "bool \<Rightarrow> ring_event list \<Rightarrow> bool" where
  "lock_discipline held [] = (\<not> held)"
| "lock_discipline held (Mutex_lock # es) = (\<not> held \<and> lock_discipline True es)"
| "lock_discipline held (Mutex_unlock # es) = (held \<and> lock_discipline False es)"
| "lock_discipline held (Load f # es) = (held \<and> lock_discipline held es)"
| "lock_discipline held (Store f # es) = (held \<and> lock_discipline held es)"

definition lock_protected :: "ring_event list \<Rightarrow> bool" where
  "lock_protected es = lock_discipline False es"

text \<open>
  What can happen to a probed device: the timer expires (the kernel detaches the
  timer, then runs \<open>trigger_simulated_irq\<close>), the two interrupt handlers run, a
  command is written to the control file, the data file is read.
\<close>

datatype irq_event =
    Timer_fire "32 word" "64 word" nat
  | Hardirq
  | Thread_wake "64 word"
  | Control_write user_space nat nat nat
  | Data_read

fun irq_step ::
  "(byte list \<Rightarrow> 32 word option) \<Rightarrow> (32 word \<Rightarrow> nat) \<Rightarrow> irq_event \<Rightarrow> irq_demo_device
   \<Rightarrow> irq_demo_device option" where
  "irq_step k m2j (Timer_fire random now jiffies) dev =
     Some (trigger_simulated_irq m2j jiffies random now (dev\<lparr>timer := None\<rparr>))"
| "irq_step k m2j Hardirq dev = Some (snd (demo_hardirq dev))"
| "irq_step k m2j (Thread_wake now) dev = map_option snd (demo_thread_handler now dev)"
| "irq_step k m2j (Control_write us buf count jiffies) dev =
     snd (control_write k m2j jiffies (Some dev) us buf count)"
| "irq_step k m2j Data_read dev = map_option (\<lambda>r. dev) (data_show (Some dev))"

fun irq_run ::
  "(byte list \<Rightarrow> 32 word option) \<Rightarrow> (32 word \<Rightarrow> nat) \<Rightarrow> irq_event list \<Rightarrow> irq_demo_device
   \<Rightarrow> irq_demo_device option" where
  "irq_run k m2j [] dev = Some dev"
| "irq_run k m2j (e # es) dev =
     (case irq_step k m2j e dev of None \<Rightarrow> None | Some dev' \<Rightarrow> irq_run k m2j es dev')"

text \<open>The event is a write of the command \<open>start\<close> to the control file.\<close>

fun is_start :: "irq_event \<Rightarrow> bool" where
  "is_start (Control_write us buf count jiffies) =
     (control_command (fst (copy_from_user us buf (min count 31))) = cstr ''start'')"
| "is_start _ = False"

text \<open>
  A device is quiet when it is not running, its timer is not armed and no interrupt
  is pending.
\<close>

definition quiet :: "irq_demo_device \<Rightarrow> bool" where
  "quiet dev = (\<not> running dev \<and> timer dev = None \<and> pending_irq dev = 0)"

text \<open>The invariant of the ring buffer.\<close>

definition ring_inv :: "irq_demo_device \<Rightarrow> bool" where
  "ring_inv dev =
     (length (data_buffer dev) = 64 \<and> 0 \<le> data_count dev \<and> data_count dev \<le> 64 \<and>
      0 \<le> data_head dev \<and> data_head dev < 64)"

text \<open>A user buffer that holds the bytes of a string.\<close>

definition user_string :: "string \<Rightarrow> user_space" where
  "user_string s = \<lparr>umem = (\<lambda>a. if a < length s then of_char (s ! a) else 0), mapped = (\<lambda>a. True)\<rparr>"

text \<open>Concrete devices and a concrete command used to exercise the operations.\<close>

definition ring_full :: irq_demo_device where
  "ring_full = irq_demo_zero\<lparr>data_buffer := replicate 64 9, data_head := 3, data_count := 64,
                             hw_data := 5\<rparr>"

definition reset_line :: string where
  "reset_line = ''reset'' @ [CHR 0x0A]"

text \<open>
  Concrete stand-ins for the two kernel helpers: \<open>msecs_to_jiffies\<close> at \<open>HZ = 1000\<close>,
  and \<open>kstrtouint\<close> in base 10 (an optional leading plus sign, decimal digits, an
  optional final newline; failure on anything else and on values beyond 32 bits).
\<close>

definition msecs_to_jiffies_1000 :: "32 word \<Rightarrow> nat" where
  "msecs_to_jiffies_1000 ms = unat ms"

definition kstrtouint_10 :: "byte list \<Rightarrow> 32 word option" where
  "kstrtouint_10 s =
     (let s1 = (if s \<noteq> [] \<and> hd s = 43 then tl s else s);
          s2 = (if s1 \<noteq> [] \<and> last s1 = 10 then butlast s1 else s1);
          v = foldl (\<lambda>a b. 10 * a + (unat b - 48)) 0 s2
      in if s2 = [] \<or> \<not> list_all (\<lambda>b. 48 \<le> b \<and> b \<le> 57) s2 \<or> 2 ^ 32 \<le> v then None
         else Some (of_nat v))"

text \<open>
  A started device, two more command lines, and a sequence of events none of which is
  a \<open>start\<close> command.
\<close>

definition irq_started :: irq_demo_device where
  "irq_started = irq_demo_zero\<lparr>interval_ms := 100, running := True, timer := Some 100\<rparr>"

definition start_line :: string where
  "start_line = ''start''"

definition interval_line :: string where
  "interval_line = ''interval 5''"

definition quiet_events :: "irq_event list" where
  "quiet_events =
     [Control_write (user_string interval_line) 0 10 0, Timer_fire 7 0 0, Hardirq, Thread_wake 0,
      Control_write (user_string reset_line) 0 6 0, Data_read]"

section \<open>part11/rtc-driver: the software clock\<close>




















section \<open>part13/ramdisk: the RAM disk\<close>

text \<open>
  \<open>struct ramdisk_dev\<close>: the backing store \<open>data\<close>, a \<open>vzalloc\<close>'ed area of
  \<open>size\<close> bytes addressed by its byte offset, and \<open>size\<close> itself. The pages of a
  request live in a second memory, addressed by byte: \<open>kmap_local_page\<close> of page
  frame \<open>p\<close> is the address \<open>p * PAGE_SIZE\<close> (the linear map of a 64-bit kernel).
  A request is its start sector (\<open>blk_rq_pos\<close>, a \<open>sector_t\<close>), its direction
  (\<open>rq_data_dir\<close>) and the segments that \<open>rq_for_each_segment\<close> yields, in order.
\<close>

definition DISK_SIZE_MB :: nat where
  "DISK_SIZE_MB = 16"

definition DISK_SIZE :: nat where
  "DISK_SIZE = DISK_SIZE_MB * 1024 * 1024"

definition SECTOR_SHIFT :: nat where
  "SECTOR_SHIFT = 9"

definition PAGE_SIZE :: nat where
  "PAGE_SIZE = 4096"

type_synonym memory = "nat \<Rightarrow> byte"

record ramdisk_dev =
  data :: memory
  size_rd :: nat

datatype rq_dir = READ | WRITE

record bio_vec =
  bv_page :: nat
  bv_len :: "32 word"
  bv_offset :: "32 word"

record request =
  rq_sector :: "64 word"
  rq_data_dir :: rq_dir
  segments :: "bio_vec list"

datatype blk_status = BLK_STS_OK | BLK_STS_IOERR

definition kmap_local_page :: "nat \<Rightarrow> nat" where
  "kmap_local_page p = p * PAGE_SIZE"

text \<open>\<open>memcpy dst d src s n\<close>: the memory \<open>dst\<close> after \<open>n\<close> bytes of \<open>src\<close> from
  address \<open>s\<close> have been copied to address \<open>d\<close>.\<close>

definition memcpy :: "memory \<Rightarrow> nat \<Rightarrow> memory \<Rightarrow> nat \<Rightarrow> nat \<Rightarrow> memory" where
  "memcpy dst d src s n = (\<lambda>a. if d \<le> a \<and> a < d + n then src (s + (a - d)) else dst a)"

definition seg_len :: "bio_vec \<Rightarrow> nat" where
  "seg_len bvec = unat (bv_len bvec)"

definition seg_buf :: "bio_vec \<Rightarrow> nat" where
  "seg_buf bvec = kmap_local_page (bv_page bvec) + unat (bv_offset bvec)"

text \<open>
  The body of \<open>rq_for_each_segment\<close> in \<open>ramdisk_queue_rq\<close>, with \<open>pos\<close> the
  \<open>loff_t\<close> position. The bounds check compares in \<open>loff_t\<close>. \<open>None\<close> stands for a
  \<open>memcpy\<close> that leaves the backing store, which the C code does not define.
\<close>

fun ramdisk_segments ::
  "rq_dir \<Rightarrow> int \<Rightarrow> bio_vec list \<Rightarrow> ramdisk_dev \<Rightarrow> memory
   \<Rightarrow> (blk_status \<times> ramdisk_dev \<times> memory) option" where
  "ramdisk_segments dir pos [] dev mem = Some (BLK_STS_OK, dev, mem)"
| "ramdisk_segments dir pos (bvec # rest) dev mem =
     (let len = seg_len bvec;
          dev_size = s64 (int (size_rd dev))
      in if s64 (pos + int len) > dev_size then Some (BLK_STS_IOERR, dev, mem)
         else if 0 < len \<and> \<not> (0 \<le> pos \<and> nat pos + len \<le> size_rd dev) then None
         else
           let buf = seg_buf bvec in
           if dir = WRITE then
             ramdisk_segments dir (s64 (pos + int len)) rest
               (dev\<lparr>data := memcpy (data dev) (nat pos) mem buf len\<rparr>) mem
           else
             ramdisk_segments dir (s64 (pos + int len)) rest dev
               (memcpy mem buf (data dev) (nat pos) len))"

definition ramdisk_queue_rq ::
  "ramdisk_dev \<Rightarrow> memory \<Rightarrow> request \<Rightarrow> (blk_status \<times> ramdisk_dev \<times> memory) option" where
  "ramdisk_queue_rq dev mem rq =
     ramdisk_segments (rq_data_dir rq) (s64 (int (unat (rq_sector rq)) * 2 ^ SECTOR_SHIFT))
       (segments rq) dev mem"

text \<open>\<open>ramdisk_init\<close> allocates 16 MB of zeroed memory.\<close>

definition ramdisk_init_dev :: ramdisk_dev where
  "ramdisk_init_dev = \<lparr>data = (\<lambda>a. 0), size_rd = DISK_SIZE\<rparr>"

text \<open>
  The words of the claims: the byte position of a request, the number of bytes of a
  list of segments, the bytes held by the buffers of the segments, in order, and the
  copy of segment after segment at a position that advances by the length of each.
\<close>

definition rq_start :: "request \<Rightarrow> nat" where
  "rq_start rq = unat (rq_sector rq) * 512"

definition rq_bytes :: "bio_vec list \<Rightarrow> nat" where
  "rq_bytes segs = sum_list (map seg_len segs)"

definition seg_addrs :: "bio_vec list \<Rightarrow> nat list" where
  "seg_addrs segs = concat (map (\<lambda>b. [seg_buf b..<seg_buf b + seg_len b]) segs)"

definition rq_buffers :: "memory \<Rightarrow> bio_vec list \<Rightarrow> byte list" where
  "rq_buffers mem segs = map mem (seg_addrs segs)"

fun copy_segments :: "rq_dir \<Rightarrow> nat \<Rightarrow> bio_vec list \<Rightarrow> memory \<times> memory \<Rightarrow> memory \<times> memory" where
  "copy_segments dir p [] st = st"
| "copy_segments dir p (b # bs) (d, m) =
     copy_segments dir (p + seg_len b) bs
       (if dir = WRITE then (memcpy d p m (seg_buf b) (seg_len b), m)
        else (d, memcpy m (seg_buf b) d p (seg_len b)))"

text \<open>The number of leading segments that fit into a device of \<open>sz\<close> bytes.\<close>

fun fitting :: "nat \<Rightarrow> nat \<Rightarrow> bio_vec list \<Rightarrow> nat" where
  "fitting sz p [] = 0"
| "fitting sz p (b # bs) =
     (if p + seg_len b > sz then 0 else Suc (fitting sz (p + seg_len b) bs))"

text \<open>Concrete requests: two segments written at sector 2, read back into two other
  segments; a request whose second segment leaves the device.\<close>

definition mem_example :: memory where
  "mem_example = (\<lambda>a. of_nat a)"

definition write_rq :: request where
  "write_rq = \<lparr>rq_sector = 2, rq_data_dir = WRITE,
               segments = [\<lparr>bv_page = 1, bv_len = 2, bv_offset = 16\<rparr>,
                           \<lparr>bv_page = 3, bv_len = 1, bv_offset = 0\<rparr>]\<rparr>"

definition read_rq :: request where
  "read_rq = \<lparr>rq_sector = 2, rq_data_dir = READ,
              segments = [\<lparr>bv_page = 5, bv_len = 1, bv_offset = 0\<rparr>,
                          \<lparr>bv_page = 6, bv_len = 2, bv_offset = 8\<rparr>]\<rparr>"


section \<open>part2/export-symbol: a library module and its user\<close>

text \<open>
  \<open>mylib.c\<close>: the state is the \<open>int\<close> counter \<open>mylib_counter\<close>; each exported
  function takes the counter and returns its result with the new counter. The
  arithmetic is that of a 32-bit \<open>int\<close>.
\<close>

definition mylib_increment :: "int \<Rightarrow> int \<times> int" where
  "mylib_increment counter = (s32 (counter + 1), s32 (counter + 1))"

definition mylib_get_count :: "int \<Rightarrow> int" where
  "mylib_get_count counter = counter"

definition mylib_reset :: "int \<Rightarrow> int" where
  "mylib_reset counter = 0"

definition mylib_multiply :: "int \<Rightarrow> int \<Rightarrow> int" where
  "mylib_multiply a b = s32 (a * b)"

text \<open>
  \<open>myuser.c\<close>: the init and exit functions, run on the counter of \<open>mylib\<close>, which
  they reach only through the four functions. The kernel log lines of \<open>myuser\<close> are
  the observable output; each carries the values it prints.
\<close>

datatype myuser_log =
    Loaded
  | Initial_count int
  | Incrementing int
  | After_increment int int
  | Product int
  | Final_count int
  | Count_before_exit int
  | Unloaded

fun myuser_loop :: "nat \<Rightarrow> int \<Rightarrow> int \<Rightarrow> myuser_log list \<times> int" where
  "myuser_loop 0 i counter = ([], counter)"
| "myuser_loop (Suc n) i counter =
     (case mylib_increment counter of
        (result, counter') \<Rightarrow>
          (case myuser_loop n (i + 1) counter' of
             (log, counter'') \<Rightarrow> (After_increment (i + 1) result # log, counter'')))"

definition myuser_init :: "int \<Rightarrow> int \<Rightarrow> int \<times> myuser_log list \<times> int" where
  "myuser_init iterations counter =
     (case myuser_loop (nat iterations) 0 counter of
        (log, counter') \<Rightarrow>
          (0,
           [Loaded, Initial_count (mylib_get_count counter), Incrementing iterations] @ log
             @ [Product (mylib_multiply 6 7), Final_count (mylib_get_count counter')],
           counter'))"

definition myuser_exit :: "int \<Rightarrow> myuser_log list \<times> int" where
  "myuser_exit counter =
     ([Count_before_exit (mylib_get_count counter), Unloaded], mylib_reset counter)"

section \<open>The source files and what links them\<close>

text \<open>
  One entry per file under \<open>src/\<close>: its path, the module registration macros it
  invokes at top level (in file order), whether it defines \<open>main\<close>, the symbols it
  exports with \<open>EXPORT_SYMBOL\<close> or \<open>EXPORT_SYMBOL_GPL\<close>, and the functions it
  declares \<open>extern\<close>. Every other function and variable of the kernel modules is
  \<open>static\<close>, so a module can call into another only through an exported symbol.
\<close>

datatype registration =
    Module_init string
  | Module_exit string
  | Module_driver string string
  | Kunit_test_suite string

record source_file =
  path :: string
  registrations :: "registration list"
  defines_main :: bool
  exports :: "string list"
  externs :: "string list"

definition source_files :: "source_file list" where
  "source_files =
     [\<lparr>path = ''examples/appendices/kunit-test/kunit_example_test.c'',
       registrations = [Kunit_test_suite ''example_test_suite''],
       defines_main = False, exports = [], externs = []\<rparr>,
      \<lparr>path = ''examples/appendices/sysfs-demo/sysfs_demo.c'',
       registrations = [Module_init ''sysfs_demo_init'', Module_exit ''sysfs_demo_exit''],
       defines_main = False, exports = [], externs = []\<rparr>,
      \<lparr>path = ''examples/appendices/uio-demo/uio_demo.c'',
       registrations = [Module_driver ''module_platform_driver'' ''uio_demo_driver'', Module_init ''uio_demo_init'', Module_exit ''uio_demo_exit''],
       defines_main = False, exports = [], externs = []\<rparr>,
      \<lparr>path = ''examples/appendices/uio-demo/uio_userspace.c'',
       registrations = [],
       defines_main = True, exports = [], externs = []\<rparr>,
      \<lparr>path = ''examples/part1/hello-world/hello.c'',
       registrations = [Module_init ''hello_init'', Module_exit ''hello_exit''],
       defines_main = False, exports = [], externs = []\<rparr>,
      \<lparr>path = ''examples/part10/hwmon-driver/hwmon_demo.c'',
       registrations = [Module_init ''demo_hwmon_init'', Module_exit ''demo_hwmon_exit''],
       defines_main = False, exports = [], externs = []\<rparr>,
      \<lparr>path = ''examples/part10/input-device/input_demo.c'',
       registrations = [Module_init ''input_demo_init'', Module_exit ''input_demo_exit''],
       defines_main = False, exports = [], externs = []\<rparr>,
      \<lparr>path = ''examples/part10/led-driver/led_demo.c'',
       registrations = [Module_init ''demo_leds_init'', Module_exit ''demo_leds_exit''],
       defines_main = False, exports = [], externs = []\<rparr>,
      \<lparr>path = ''examples/part10/pwm-driver/pwm_demo.c'',
       registrations = [Module_init ''demo_pwm_init'', Module_exit ''demo_pwm_exit''],
       defines_main = False, exports = [], externs = []\<rparr>,
      \<lparr>path = ''examples/part10/watchdog-driver/watchdog_demo.c'',
       registrations = [Module_init ''demo_wdt_init'', Module_exit ''demo_wdt_exit''],
       defines_main = False, exports = [], externs = []\<rparr>,
      \<lparr>path = ''examples/part11/iio-adc/iio_adc_demo.c'',
       registrations = [Module_init ''demo_adc_init'', Module_exit ''demo_adc_exit''],
       defines_main = False, exports = [], externs = []\<rparr>,
      \<lparr>path = ''examples/part11/rtc-driver/rtc_demo.c'',
       registrations = [Module_init ''demo_rtc_init'', Module_exit ''demo_rtc_exit''],
       defines_main = False, exports = [], externs = []\<rparr>,
      \<lparr>path = ''examples/part12/virtual-netdev/vnet_demo.c'',
       registrations = [Module_init ''vnet_init'', Module_exit ''vnet_exit''],
       defines_main = False, exports = [], externs = []\<rparr>,
      \<lparr>path = ''examples/part13/ramdisk/ramdisk_demo.c'',
       registrations = [Module_init ''ramdisk_init'', Module_exit ''ramdisk_exit''],
       defines_main = False, exports = [], externs = []\<rparr>,
      \<lparr>path = ''examples/part14/usb-device/usb_demo.c'',
       registrations = [Module_driver ''module_usb_driver'' ''usb_demo_driver''],
       defines_main = False, exports = [], externs = []\<rparr>,
      \<lparr>path = ''examples/part15/pci-skeleton/pci_skeleton.c'',
       registrations = [Module_driver ''module_pci_driver'' ''skeleton_driver''],
       defines_main = False, exports = [], externs = []\<rparr>,
      \<lparr>path = ''examples/part16/pm-driver/pm_demo.c'',
       registrations = [Module_init ''pm_demo_init'', Module_exit ''pm_demo_exit''],
       defines_main = False, exports = [], externs = []\<rparr>,
      \<lparr>path = ''examples/part2/data-structures/data_structures_demo.c'',
       registrations = [Module_init ''data_structures_demo_init'', Module_exit ''data_structures_demo_exit''],
       defines_main = False, exports = [], externs = []\<rparr>,
      \<lparr>path = ''examples/part2/export-symbol/mylib.c'',
       registrations = [Module_init ''mylib_init'', Module_exit ''mylib_exit''],
       defines_main = False, exports = [''mylib_increment'', ''mylib_get_count'', ''mylib_reset'', ''mylib_multiply''], externs = []\<rparr>,
      \<lparr>path = ''examples/part2/export-symbol/myuser.c'',
       registrations = [Module_init ''myuser_init'', Module_exit ''myuser_exit''],
       defines_main = False, exports = [], externs = [''mylib_increment'', ''mylib_get_count'', ''mylib_reset'', ''mylib_multiply'']\<rparr>,
      \<lparr>path = ''examples/part2/module-params/params.c'',
       registrations = [Module_init ''params_init'', Module_exit ''params_exit''],
       defines_main = False, exports = [], externs = []\<rparr>,
      \<lparr>path = ''examples/part3/ioctl-device/ioctl_device.c'',
       registrations = [Module_init ''ioctl_init'', Module_exit ''ioctl_exit''],
       defines_main = False, exports = [], externs = []\<rparr>,
      \<lparr>path = ''examples/part3/ioctl-device/ioctl_example.h'',
       registrations = [],
       defines_main = False, exports = [], externs = []\<rparr>,
      \<lparr>path = ''examples/part3/ioctl-device/test_ioctl.c'',
       registrations = [],
       defines_main = True, exports = [], externs = []\<rparr>,
      \<lparr>path = ''examples/part3/simple-char/simple_char.c'',
       registrations = [Module_init ''simple_init'', Module_exit ''simple_exit''],
       defines_main = False, exports = [], externs = []\<rparr>,
      \<lparr>path = ''examples/part4/kthread-demo/kthread_demo.c'',
       registrations = [Module_init ''kthread_demo_init'', Module_exit ''kthread_demo_exit''],
       defines_main = False, exports = [], externs = []\<rparr>,
      \<lparr>path = ''examples/part4/spinlock-demo/spinlock_demo.c'',
       registrations = [Module_init ''spinlock_demo_init'', Module_exit ''spinlock_demo_exit''],
       defines_main = False, exports = [], externs = []\<rparr>,
      \<lparr>path = ''examples/part4/timer-demo/timer_demo.c'',
       registrations = [Module_init ''timer_demo_init'', Module_exit ''timer_demo_exit''],
       defines_main = False, exports = [], externs = []\<rparr>,
      \<lparr>path = ''examples/part4/workqueue-demo/workqueue_demo.c'',
       registrations = [Module_init ''workqueue_demo_init'', Module_exit ''workqueue_demo_exit''],
       defines_main = False, exports = [], externs = []\<rparr>,
      \<lparr>path = ''examples/part5/dma-demo/dma_demo.c'',
       registrations = [Module_init ''dma_demo_init'', Module_exit ''dma_demo_exit''],
       defines_main = False, exports = [], externs = []\<rparr>,
      \<lparr>path = ''examples/part5/kmem-cache-demo/kmem_cache_demo.c'',
       registrations = [Module_init ''kmem_cache_demo_init'', Module_exit ''kmem_cache_demo_exit''],
       defines_main = False, exports = [], externs = []\<rparr>,
      \<lparr>path = ''examples/part6/platform-driver/platform_driver_demo.c'',
       registrations = [Module_driver ''module_platform_driver'' ''platform_demo_driver''],
       defines_main = False, exports = [], externs = []\<rparr>,
      \<lparr>path = ''examples/part7/threaded-irq-demo/threaded_irq_demo.c'',
       registrations = [Module_init ''demo_init'', Module_exit ''demo_exit''],
       defines_main = False, exports = [], externs = []\<rparr>,
      \<lparr>path = ''examples/part8/dt-platform-driver/dt_platform_demo.c'',
       registrations = [Module_driver ''module_platform_driver'' ''dt_demo_driver''],
       defines_main = False, exports = [], externs = []\<rparr>,
      \<lparr>path = ''examples/part9/gpio-driver/gpio_chip_demo.c'',
       registrations = [Module_init ''demo_gpio_init'', Module_exit ''demo_gpio_exit''],
       defines_main = False, exports = [], externs = []\<rparr>,
      \<lparr>path = ''examples/part9/i2c-sensor/i2c_sensor_demo.c'',
       registrations = [Module_driver ''module_i2c_driver'' ''demo_sensor_driver''],
       defines_main = False, exports = [], externs = []\<rparr>,
      \<lparr>path = ''examples/part9/spi-device/spi_flash_demo.c'',
       registrations = [Module_driver ''module_spi_driver'' ''demo_flash_driver''],
       defines_main = False, exports = [], externs = []\<rparr>]"

text \<open>
  \<open>module_init\<close> registers the entry point of a module and \<open>module_exit\<close> its exit
  point; a \<open>module_*_driver\<close> helper macro expands to both.
\<close>

fun provides_init :: "registration \<Rightarrow> bool" where
  "provides_init (Module_init f) = True"
| "provides_init (Module_driver macro driver) = True"
| "provides_init _ = False"

fun provides_exit :: "registration \<Rightarrow> bool" where
  "provides_exit (Module_exit f) = True"
| "provides_exit (Module_driver macro driver) = True"
| "provides_exit _ = False"

definition has_module_init :: "source_file \<Rightarrow> bool" where
  "has_module_init f = list_ex provides_init (registrations f)"

definition has_module_exit :: "source_file \<Rightarrow> bool" where
  "has_module_exit f = list_ex provides_exit (registrations f)"

definition find_file :: "string \<Rightarrow> source_file option" where
  "find_file p = find (\<lambda>f. path f = p) source_files"

text \<open>The files that are not kernel modules with an init and an exit function of
  their own: two user-space programs, the header they share with the driver, and the
  KUnit suite, which the KUnit framework runs.\<close>

definition not_init_exit_modules :: "string list" where
  "not_init_exit_modules =
     [''examples/appendices/uio-demo/uio_userspace.c'',
      ''examples/part3/ioctl-device/test_ioctl.c'',
      ''examples/part3/ioctl-device/ioctl_example.h'',
      ''examples/appendices/kunit-test/kunit_example_test.c'']"

text \<open>File \<open>f\<close> declares \<open>extern\<close> a symbol that file \<open>g\<close> exports.\<close>

definition references :: "source_file \<Rightarrow> source_file \<Rightarrow> bool" where
  "references f g = list_ex (\<lambda>s. s \<in> set (exports g)) (externs f)"

section \<open>Properties of the shared conventions\<close>

lemma access_len_le: "access_len us a n \<le> n"
  unfolding access_len_def using length_takeWhile_le[of "mapped us" "[a..<a+n]"] by simp

lemma access_len_ok: "user_ok us a n \<Longrightarrow> access_len us a n = n"
  unfolding access_len_def user_ok_def list_all_iff
  by (simp add: takeWhile_eq_all_conv[THEN iffD2])

lemma access_len_bad: "\<not> user_ok us a n \<Longrightarrow> access_len us a n < n"
proof -
  assume "\<not> user_ok us a n"
  then have "takeWhile (mapped us) [a..<a+n] \<noteq> [a..<a+n]"
    unfolding user_ok_def list_all_iff by (metis takeWhile_eq_all_conv)
  then have "length (takeWhile (mapped us) [a..<a+n]) \<noteq> length [a..<a+n]"
    by (metis takeWhile_eq_take take_all_iff order_refl)
  then show ?thesis
    unfolding access_len_def using length_takeWhile_le[of "mapped us" "[a..<a+n]"] by simp
qed

lemma copy_from_user_length: "length (fst (copy_from_user us a n)) = n"
  using access_len_le[of us a n] by (simp add: copy_from_user_def Let_def)

lemma copy_from_user_ok:
  "user_ok us a n \<Longrightarrow> copy_from_user us a n = (map (umem us) [a..<a + n], 0)"
  by (simp add: copy_from_user_def access_len_ok)

lemma copy_from_user_bad:
  "\<not> user_ok us a n \<Longrightarrow> snd (copy_from_user us a n) \<noteq> 0"
  using access_len_bad[of us a n] by (simp add: copy_from_user_def Let_def)

lemma copy_to_user_ok:
  "user_ok us a (length src) \<Longrightarrow>
   copy_to_user us a src =
     (us\<lparr>umem := (\<lambda>x. if a \<le> x \<and> x < a + length src then src ! (x - a) else umem us x)\<rparr>, 0)"
  by (simp add: copy_to_user_def access_len_ok)

lemma copy_to_user_bad:
  "\<not> user_ok us a (length src) \<Longrightarrow> snd (copy_to_user us a src) \<noteq> 0"
  using access_len_bad[of us a "length src"] by (simp add: copy_to_user_def Let_def)

lemma u64_id: "0 \<le> x \<Longrightarrow> x < 2 ^ 64 \<Longrightarrow> u64 x = nat x"
  by (simp add: u64_def)

lemma s64_id: "is_s64 x \<Longrightarrow> s64 x = x"
proof -
  assume "is_s64 x"
  then have "0 \<le> x + 2 ^ 63" "x + 2 ^ 63 < 2 ^ 64" by (simp_all add: is_s64_def)
  then have "(x + 2 ^ 63) mod 2 ^ 64 = x + 2 ^ 63" by (rule mod_pos_pos_trivial)
  then show ?thesis by (simp add: s64_def)
qed

lemma is_s64_s64: "is_s64 (s64 x)"
proof -
  have "0 \<le> (x + 2 ^ 63) mod (2 ^ 64 :: int)" "(x + 2 ^ 63) mod (2 ^ 64 :: int) < 2 ^ 64"
    by simp_all
  then show ?thesis unfolding s64_def is_s64_def by simp
qed

section \<open>Properties of the character device\<close>

lemma schar_read_eof:
  assumes "0 \<le> pos" "pos < 2 ^ 63" "int (size_sd dev) \<le> pos"
  shows "schar_read dev us buf count pos = Some (0, us, pos)"
proof -
  have "u64 pos = nat pos" using assms by (simp add: u64_id)
  moreover have "size_sd dev \<le> nat pos" using assms by linarith
  ultimately show ?thesis by (simp add: schar_read_def)
qed

lemma schar_read_some:
  assumes inv: "sd_inv dev" and pos: "0 \<le> pos" "pos < int (size_sd dev)"
    and n: "n = min count (size_sd dev - nat pos)"
  shows "schar_read dev us buf count pos =
     (case copy_to_user us buf (take n (drop (nat pos) (buffer dev))) of
        (us', left) \<Rightarrow> if left \<noteq> 0 then Some (- EFAULT, us', pos)
                       else Some (int n, us', pos + int n))"
proof -
  have sz: "size_sd dev \<le> 4096" using inv by (simp add: sd_inv_def BUFFER_SIZE_def)
  have u: "u64 pos = nat pos" using pos sz by (simp add: u64_id)
  have c: "(if count > size_sd dev - nat pos then size_sd dev - nat pos else count) = n"
    using n by (simp add: min_def)
  have b: "nat pos + n \<le> BUFFER_SIZE" using n pos sz unfolding BUFFER_SIZE_def by linarith
  have "is_s64 (pos + int n)" using pos sz b by (simp add: is_s64_def BUFFER_SIZE_def)
  then have s: "s64 (pos + int n) = pos + int n" by (rule s64_id)
  have lt: "\<not> size_sd dev \<le> nat pos" using pos by linarith
  show ?thesis
    unfolding schar_read_def Let_def u c s using lt b pos by simp
qed

lemma length_read_src:
  assumes inv: "sd_inv dev" and pos: "0 \<le> pos" "pos < int (size_sd dev)"
    and n: "n = min count (size_sd dev - nat pos)"
  shows "length (take n (drop (nat pos) (buffer dev))) = n"
proof -
  have "n \<le> length (buffer dev) - nat pos" using assms unfolding sd_inv_def by linarith
  then show ?thesis by simp
qed

text \<open>
  Claim C6, as the code has it. For a device that satisfies its invariant and a file
  position \<open>pos\<close> that is a non-negative \<open>loff_t\<close>, with
  \<open>n = min count (size - pos)\<close>: at or past the fill level \<open>schar_read\<close> returns 0
  and changes neither the user memory nor the position; below it, when the \<open>n\<close>
  bytes of the caller's buffer are accessible, exactly the bytes
  \<open>buffer[pos .. pos + n)\<close> arrive at \<open>buf\<close>, all other user memory is unchanged,
  the position advances by \<open>n\<close> and \<open>n\<close> is returned; when the caller's buffer is
  not fully accessible the call returns \<open>-EFAULT\<close> and leaves the position where it was.
\<close>

theorem schar_read_spec:
  assumes inv: "sd_inv dev" and pos: "0 \<le> pos" "pos < 2 ^ 63"
    and n: "n = min count (size_sd dev - nat pos)"
  shows "(int (size_sd dev) \<le> pos \<longrightarrow> schar_read dev us buf count pos = Some (0, us, pos)) \<and>
         (pos < int (size_sd dev) \<and> user_ok us buf n \<longrightarrow>
            (\<exists>us'. schar_read dev us buf count pos = Some (int n, us', pos + int n) \<and>
                   map (umem us') [buf..<buf + n] = take n (drop (nat pos) (buffer dev)) \<and>
                   (\<forall>a. a < buf \<or> buf + n \<le> a \<longrightarrow> umem us' a = umem us a) \<and>
                   mapped us' = mapped us)) \<and>
         (pos < int (size_sd dev) \<and> \<not> user_ok us buf n \<longrightarrow>
            (\<exists>us'. schar_read dev us buf count pos = Some (- EFAULT, us', pos)))"
proof (intro conjI impI)
  assume "int (size_sd dev) \<le> pos"
  then show "schar_read dev us buf count pos = Some (0, us, pos)"
    using pos by (rule schar_read_eof[rotated 2])
next
  assume a: "pos < int (size_sd dev) \<and> user_ok us buf n"
  let ?src = "take n (drop (nat pos) (buffer dev))"
  let ?us' = "us\<lparr>umem := (\<lambda>x. if buf \<le> x \<and> x < buf + n then ?src ! (x - buf) else umem us x)\<rparr>"
  have len: "length ?src = n" using length_read_src[OF inv pos(1) _ n] a by simp
  have cp: "copy_to_user us buf ?src = (?us', 0)"
    using copy_to_user_ok[of us buf ?src] a len by simp
  have r: "schar_read dev us buf count pos = Some (int n, ?us', pos + int n)"
    using schar_read_some[OF inv pos(1) _ n, of us buf] a cp by simp
  have m: "map (umem ?us') [buf..<buf + n] = ?src"
    using len by (auto intro!: nth_equalityI)
  show "\<exists>us'. schar_read dev us buf count pos = Some (int n, us', pos + int n) \<and>
          map (umem us') [buf..<buf + n] = ?src \<and>
          (\<forall>a. a < buf \<or> buf + n \<le> a \<longrightarrow> umem us' a = umem us a) \<and> mapped us' = mapped us"
    using r m by (intro exI[of _ ?us']) auto
next
  assume a: "pos < int (size_sd dev) \<and> \<not> user_ok us buf n"
  let ?src = "take n (drop (nat pos) (buffer dev))"
  have len: "length ?src = n" using length_read_src[OF inv pos(1) _ n] a by simp
  have "snd (copy_to_user us buf ?src) \<noteq> 0"
    using copy_to_user_bad[of us buf ?src] a len by simp
  then show "\<exists>us'. schar_read dev us buf count pos = Some (- EFAULT, us', pos)"
    using schar_read_some[OF inv pos(1) _ n, of us buf] a
    by (auto split: prod.splits)
qed

lemma schar_write_nospc:
  "int BUFFER_SIZE \<le> pos \<Longrightarrow> schar_write dev us buf count pos = Some (- ENOSPC, dev, pos)"
  by (simp add: schar_write_def)

lemma schar_write_some:
  assumes pos: "0 \<le> pos" "pos < int BUFFER_SIZE"
    and n: "n = min count (BUFFER_SIZE - nat pos)"
  shows "schar_write dev us buf count pos =
     (case copy_from_user us buf n of
        (bytes, left) \<Rightarrow>
          let buffer' = take (nat pos) (buffer dev) @ bytes @ drop (nat pos + n) (buffer dev)
          in if left \<noteq> 0 then Some (- EFAULT, dev\<lparr>buffer := buffer'\<rparr>, pos)
             else Some (int n, dev\<lparr>buffer := buffer',
                                     size_sd := max (size_sd dev) (nat pos + n)\<rparr>, pos + int n))"
proof -
  have "0 \<le> int BUFFER_SIZE - pos" "int BUFFER_SIZE - pos < 2 ^ 64"
    using pos by (simp_all add: BUFFER_SIZE_def)
  then have "u64 (int BUFFER_SIZE - pos) = nat (int BUFFER_SIZE - pos)" by (rule u64_id)
  also have "\<dots> = BUFFER_SIZE - nat pos" using pos by linarith
  finally have u: "u64 (int BUFFER_SIZE - pos) = BUFFER_SIZE - nat pos" .
  have c: "(if count > BUFFER_SIZE - nat pos then BUFFER_SIZE - nat pos else count) = n"
    using n by (simp add: min_def)
  have b: "nat pos + n \<le> BUFFER_SIZE" using n pos by linarith
  have "is_s64 (pos + int n)" using pos b by (simp add: is_s64_def BUFFER_SIZE_def)
  then have s: "s64 (pos + int n) = pos + int n" by (rule s64_id)
  have "0 \<le> pos + int n" "pos + int n < 2 ^ 64" using pos b by (simp_all add: BUFFER_SIZE_def)
  then have "u64 (pos + int n) = nat (pos + int n)" by (rule u64_id)
  also have "\<dots> = nat pos + n" using pos by linarith
  finally have u2: "u64 (pos + int n) = nat pos + n" .
  have lt: "\<not> int BUFFER_SIZE \<le> pos" using pos by linarith
  have mx: "(if nat pos + n > size_sd dev then nat pos + n else size_sd dev) = max (size_sd dev) (nat pos + n)"
    by (simp add: max_def)
  show ?thesis
    unfolding schar_write_def Let_def u c s u2 mx using lt b pos by simp
qed

lemma schar_write_inv:
  assumes inv: "sd_inv dev" and pos: "0 \<le> pos" "pos < 2 ^ 63"
  shows "\<exists>ret dev' pos'. schar_write dev us buf count pos = Some (ret, dev', pos') \<and>
           sd_inv dev' \<and> size_sd dev \<le> size_sd dev' \<and> 0 \<le> pos' \<and> pos' < 2 ^ 63"
proof (cases "int BUFFER_SIZE \<le> pos")
  case True
  then show ?thesis using inv pos by (simp add: schar_write_nospc)
next
  case False
  define n where "n = min count (BUFFER_SIZE - nat pos)"
  have p: "pos < int BUFFER_SIZE" using False by simp
  have b: "nat pos + n \<le> BUFFER_SIZE" using n_def pos p by linarith
  obtain bytes left where cf: "copy_from_user us buf n = (bytes, left)" by (cases "copy_from_user us buf n")
  have lb: "length bytes = n" using copy_from_user_length[of us buf n] cf by simp
  have len: "length (take (nat pos) (buffer dev) @ bytes @ drop (nat pos + n) (buffer dev)) = BUFFER_SIZE"
    using inv lb b by (simp add: sd_inv_def)
  show ?thesis
    using schar_write_some[OF pos(1) p n_def, of dev us buf] cf len inv b pos
    by (auto simp: sd_inv_def Let_def BUFFER_SIZE_def)
qed

lemma schar_read_inv:
  assumes inv: "sd_inv dev" and pos: "0 \<le> pos" "pos < 2 ^ 63"
  shows "\<exists>ret us' pos'. schar_read dev us buf count pos = Some (ret, us', pos') \<and>
           0 \<le> pos' \<and> pos' < 2 ^ 63"
proof (cases "int (size_sd dev) \<le> pos")
  case True
  then show ?thesis using pos by (simp add: schar_read_eof)
next
  case False
  define n where "n = min count (size_sd dev - nat pos)"
  have p: "pos < int (size_sd dev)" using False by simp
  have "nat pos + n \<le> 4096" using n_def pos p inv unfolding sd_inv_def BUFFER_SIZE_def by linarith
  then show ?thesis
    using schar_read_some[OF inv pos(1) p n_def, of us buf] pos
    by (auto split: prod.splits)
qed

lemma simple_llseek_inv:
  assumes "0 \<le> f_pos filp" "f_pos filp < 2 ^ 63" "is_s64 offset"
  shows "0 \<le> f_pos (snd (simple_llseek dev filp offset whence)) \<and>
         f_pos (snd (simple_llseek dev filp offset whence)) < 2 ^ 63"
proof -
  have f: "\<And>x. is_s64 x \<Longrightarrow> 0 \<le> f_pos (snd (llseek_finish filp x)) \<and> f_pos (snd (llseek_finish filp x)) < 2 ^ 63"
    using assms by (simp add: llseek_finish_def is_s64_def)
  show ?thesis
    unfolding simple_llseek_def using f[OF is_s64_s64] f[OF assms(3)] assms by simp
qed

lemma schar_step_inv:
  assumes "schar_inv s" "schar_op_ok x"
  shows "\<exists>ret s'. schar_step x s = Some (ret, s') \<and> schar_inv s' \<and> size_sd (fst s) \<le> size_sd (fst s')"
proof -
  obtain dev filp us where s: "s = (dev, filp, us)" by (cases s)
  have inv: "sd_inv dev" "0 \<le> f_pos filp" "f_pos filp < 2 ^ 63"
    using assms(1) s by (simp_all add: schar_inv_def)
  show ?thesis
  proof (cases x)
    case (Read buf count)
    then show ?thesis
      using schar_read_inv[OF inv, of us buf count] inv s by (auto simp: schar_inv_def)
  next
    case (Write buf count)
    then show ?thesis
      using schar_write_inv[OF inv, of us buf count] inv s by (auto simp: schar_inv_def)
  next
    case (Llseek offset whence)
    then show ?thesis
      using simple_llseek_inv[OF inv(2,3), of offset dev whence] assms(2) inv s
      by (auto simp: schar_inv_def split: prod.splits)
  qed
qed

lemma schar_run_inv:
  "schar_inv s \<Longrightarrow> list_all schar_op_ok xs \<Longrightarrow>
   \<exists>s'. schar_run xs s = Some s' \<and> schar_inv s' \<and> size_sd (fst s) \<le> size_sd (fst s')"
proof (induction xs arbitrary: s)
  case Nil
  then show ?case by simp
next
  case (Cons x xs)
  from Cons.prems obtain ret s1 where
    st: "schar_step x s = Some (ret, s1)" "schar_inv s1" "size_sd (fst s) \<le> size_sd (fst s1)"
    using schar_step_inv[of s x] by auto
  from Cons.IH[OF st(2)] Cons.prems(2) obtain s' where
    "schar_run xs s1 = Some s'" "schar_inv s'" "size_sd (fst s1) \<le> size_sd (fst s')"
    by auto
  then show ?case using st by auto
qed

lemma user_ok_flat: "user_ok user_flat a n"
  by (simp add: user_ok_def user_flat_def list_all_iff)

lemma user_ok_unmapped: "0 < n \<Longrightarrow> \<not> user_ok user_unmapped a n"
  by (auto simp add: user_ok_def user_unmapped_def list_all_iff)

lemma sd_inv_four: "sd_inv sd_four"
  by (simp add: sd_inv_def sd_four_def BUFFER_SIZE_def)

lemma sd_inv_init: "sd_inv simple_dev_init"
  by (simp add: sd_inv_def simple_dev_init_def)

theorem schar_read_spec_witness:
  "sd_inv sd_four \<and>
   schar_read sd_four user_flat 10 2 9 = Some (0, user_flat, 9) \<and>
   (\<exists>us'. schar_read sd_four user_flat 10 2 1 = Some (2, us', 3) \<and>
          map (umem us') [10..<12] = [2, 3]) \<and>
   (\<exists>us'. schar_read sd_four user_unmapped 10 2 1 = Some (- EFAULT, us', 1))"
proof -
  have s: "size_sd sd_four = 4" by (simp add: sd_four_def)
  have t: "take 2 (drop (Suc 0) (buffer sd_four)) = [2, 3]"
    by (simp add: sd_four_def numeral_2_eq_2)
  have a: "schar_read sd_four user_flat 10 2 9 = Some (0, user_flat, 9)"
    using schar_read_spec[OF sd_inv_four, of 9 0 2 user_flat 10] by (simp add: s)
  have b: "\<exists>us'. schar_read sd_four user_flat 10 2 1 = Some (2, us', 3) \<and>
          map (umem us') [10..<12] = [2, 3]"
    using schar_read_spec[OF sd_inv_four, of 1 2 2 user_flat 10]
    by (simp add: s t user_ok_flat) blast
  have c: "\<exists>us'. schar_read sd_four user_unmapped 10 2 1 = Some (- EFAULT, us', 1)"
    using schar_read_spec[OF sd_inv_four, of 1 2 2 user_unmapped 10]
    by (simp add: s user_ok_unmapped)
  show ?thesis using a b c sd_inv_four by simp
qed

theorem schar_read_counterexample:
  "sd_inv sd_four \<and> (1 :: int) < int (size_sd sd_four) \<and>
   min (2 :: nat) (size_sd sd_four - nat 1) = 2 \<and>
   map_option (\<lambda>(ret, us', pos'). (ret, pos')) (schar_read sd_four user_unmapped 10 2 1)
     = Some (- 14, 1)"
proof -
  have s: "size_sd sd_four = 4" by (simp add: sd_four_def)
  have "snd (copy_to_user user_unmapped 10 (take 2 (drop (nat 1) (buffer sd_four)))) \<noteq> 0"
    by (rule copy_to_user_bad) (simp add: sd_four_def user_ok_unmapped)
  then have "map_option (\<lambda>(ret, us', pos'). (ret, pos')) (schar_read sd_four user_unmapped 10 2 1)
     = Some (- 14, 1)"
    using schar_read_some[OF sd_inv_four, of 1 2 2 user_unmapped 10]
    by (auto simp: s EFAULT_def split: prod.splits)
  then show ?thesis using sd_inv_four by (simp add: s)
qed

text \<open>
  Claim C7, as the code has it. From a state that satisfies the invariant, every sequence
  of read, write and llseek operations runs without leaving the array, ends in a state
  with \<open>size \<le> 4096\<close>, and never lowers \<open>size\<close>. A write at \<open>pos < 4096\<close> from
  an accessible user buffer transfers \<open>n = min count (4096 - pos)\<close> bytes, sets \<open>size\<close>
  to \<open>max size (pos + n)\<close> and returns \<open>n\<close>; from a buffer that is not fully
  accessible it returns \<open>-EFAULT\<close> with \<open>size\<close> unchanged; at \<open>pos \<ge> 4096\<close>
  it returns \<open>-ENOSPC\<close> and changes nothing. Read and llseek leave the device as it was.
\<close>

theorem schar_ops_spec:
  assumes inv: "schar_inv (dev, filp, us)" and ok: "list_all schar_op_ok xs"
    and pos: "pos = f_pos filp" and n: "n = min count (BUFFER_SIZE - nat pos)"
  shows
   "(\<exists>s'. schar_run xs (dev, filp, us) = Some s' \<and> schar_inv s' \<and>
          size_sd (fst s') \<le> BUFFER_SIZE \<and> size_sd dev \<le> size_sd (fst s')) \<and>
    (pos < int BUFFER_SIZE \<and> user_ok us buf n \<longrightarrow>
       schar_write dev us buf count pos =
         Some (int n,
               dev\<lparr>buffer := take (nat pos) (buffer dev) @ map (umem us) [buf..<buf + n]
                                @ drop (nat pos + n) (buffer dev),
                   size_sd := max (size_sd dev) (nat pos + n)\<rparr>,
               pos + int n)) \<and>
    (pos < int BUFFER_SIZE \<and> \<not> user_ok us buf n \<longrightarrow>
       (\<exists>dev'. schar_write dev us buf count pos = Some (- EFAULT, dev', pos) \<and>
               size_sd dev' = size_sd dev)) \<and>
    (int BUFFER_SIZE \<le> pos \<longrightarrow> schar_write dev us buf count pos = Some (- ENOSPC, dev, pos)) \<and>
    (\<forall>rbuf rcount ret s'.
       schar_step (Read rbuf rcount) (dev, filp, us) = Some (ret, s') \<longrightarrow> fst s' = dev) \<and>
    (\<forall>offset whence ret s'.
       schar_step (Llseek offset whence) (dev, filp, us) = Some (ret, s') \<longrightarrow> fst s' = dev)"
proof -
  have p0: "0 \<le> pos" using inv pos by (simp add: schar_inv_def)
  have run: "\<exists>s'. schar_run xs (dev, filp, us) = Some s' \<and> schar_inv s' \<and>
          size_sd (fst s') \<le> BUFFER_SIZE \<and> size_sd dev \<le> size_sd (fst s')"
    using schar_run_inv[OF inv ok] by (auto simp: schar_inv_def sd_inv_def)
  have w1: "pos < int BUFFER_SIZE \<and> user_ok us buf n \<longrightarrow>
       schar_write dev us buf count pos =
         Some (int n,
               dev\<lparr>buffer := take (nat pos) (buffer dev) @ map (umem us) [buf..<buf + n]
                                @ drop (nat pos + n) (buffer dev),
                   size_sd := max (size_sd dev) (nat pos + n)\<rparr>,
               pos + int n)"
  proof
    assume a: "pos < int BUFFER_SIZE \<and> user_ok us buf n"
    then show "schar_write dev us buf count pos =
         Some (int n,
               dev\<lparr>buffer := take (nat pos) (buffer dev) @ map (umem us) [buf..<buf + n]
                                @ drop (nat pos + n) (buffer dev),
                   size_sd := max (size_sd dev) (nat pos + n)\<rparr>,
               pos + int n)"
      using schar_write_some[OF p0 _ n, of dev us buf] copy_from_user_ok[of us buf n]
      by simp
  qed
  have w2: "pos < int BUFFER_SIZE \<and> \<not> user_ok us buf n \<longrightarrow>
       (\<exists>dev'. schar_write dev us buf count pos = Some (- EFAULT, dev', pos) \<and>
               size_sd dev' = size_sd dev)"
  proof
    assume a: "pos < int BUFFER_SIZE \<and> \<not> user_ok us buf n"
    then show "\<exists>dev'. schar_write dev us buf count pos = Some (- EFAULT, dev', pos) \<and>
               size_sd dev' = size_sd dev"
      using schar_write_some[OF p0 _ n, of dev us buf] copy_from_user_bad[of us buf n]
      by (auto simp: Let_def split: prod.splits)
  qed
  have w3: "int BUFFER_SIZE \<le> pos \<longrightarrow> schar_write dev us buf count pos = Some (- ENOSPC, dev, pos)"
    by (simp add: schar_write_nospc)
  have r: "\<forall>rbuf rcount ret s'.
       schar_step (Read rbuf rcount) (dev, filp, us) = Some (ret, s') \<longrightarrow> fst s' = dev"
    by (auto split: option.splits)
  have l: "\<forall>offset whence ret s'.
       schar_step (Llseek offset whence) (dev, filp, us) = Some (ret, s') \<longrightarrow> fst s' = dev"
    by (auto split: prod.splits)
  show ?thesis using run w1 w2 w3 r l by blast
qed

theorem schar_ops_spec_witness:
  "schar_inv (simple_dev_init, \<lparr>f_pos = 0\<rparr>, user_flat) \<and>
   (\<exists>s'. schar_run [Write 0 3, Llseek 0 0, Read 100 2] (simple_dev_init, \<lparr>f_pos = 0\<rparr>, user_flat)
            = Some s' \<and> schar_inv s') \<and>
   (\<exists>dev'. schar_write simple_dev_init user_flat 0 3 0 = Some (3, dev', 3) \<and> size_sd dev' = 3)"
proof -
  have i: "schar_inv (simple_dev_init, \<lparr>f_pos = 0\<rparr>, user_flat)"
    using sd_inv_init by (simp add: schar_inv_def)
  have o: "list_all schar_op_ok [Write 0 3, Llseek 0 0, Read 100 2]"
    by (simp add: is_s64_def)
  have n: "(3 :: nat) = min 3 (BUFFER_SIZE - nat 0)" by (simp add: BUFFER_SIZE_def)
  have s: "size_sd simple_dev_init = 0" by (simp add: simple_dev_init_def)
  show ?thesis
    using schar_ops_spec[OF i o _ n, where buf = 0] i
    by (simp add: user_ok_flat BUFFER_SIZE_def s del: schar_run.simps schar_step.simps) blast
qed

theorem schar_write_counterexample:
  "sd_inv simple_dev_init \<and> (0 :: int) < int BUFFER_SIZE \<and>
   max (size_sd simple_dev_init) (nat 0 + min 3 (BUFFER_SIZE - nat 0)) = 3 \<and>
   map_option (\<lambda>(ret, dev', pos'). (ret, size_sd dev', pos'))
     (schar_write simple_dev_init user_unmapped 0 3 0) = Some (- 14, 0, 0)"
proof -
  have n: "(3 :: nat) = min 3 (BUFFER_SIZE - nat 0)" by (simp add: BUFFER_SIZE_def)
  have s: "size_sd simple_dev_init = 0" by (simp add: simple_dev_init_def)
  have "snd (copy_from_user user_unmapped 0 3) \<noteq> 0"
    by (rule copy_from_user_bad) (simp add: user_ok_unmapped)
  then have "map_option (\<lambda>(ret, dev', pos'). (ret, size_sd dev', pos'))
     (schar_write simple_dev_init user_unmapped 0 3 0) = Some (- 14, 0, 0)"
    using schar_write_some[OF _ _ n, of simple_dev_init user_unmapped 0]
    by (auto simp: s EFAULT_def BUFFER_SIZE_def Let_def split: prod.splits)
  then show ?thesis using sd_inv_init by (simp add: s BUFFER_SIZE_def)
qed

section \<open>Properties of the ioctl device\<close>

lemma ioctl_cmd_values:
  "IOCTL_RESET = 0x4500" "IOCTL_GET_STATS = 0x80204501" "IOCTL_GET_VALUE = 0x80044502"
  "IOCTL_SET_CONFIG = 0x40284503" "IOCTL_SET_VALUE = 0x40044504" "IOCTL_XFER_CONFIG = 0xC0284505"
  by (simp_all add: IOCTL_RESET_def IOCTL_GET_STATS_def IOCTL_GET_VALUE_def IOCTL_SET_CONFIG_def
      IOCTL_SET_VALUE_def IOCTL_XFER_CONFIG_def IO_def IOR_def IOW_def IOWR_def IOC_def
      IOC_NONE_def IOC_READ_def IOC_WRITE_def IOCTL_MAGIC_def SIZEOF_INT_def SIZEOF_CONFIG_def SIZEOF_STATS_def)

text \<open>
  Claim C9. A command whose magic is not \<open>IOCTL_MAGIC\<close> or whose number exceeds
  \<open>IOCTL_MAXNR\<close> makes \<open>ioctl_ioctl\<close> return \<open>-ENOTTY\<close> with the whole device
  state, \<open>ioctl_count\<close> and \<open>last_error\<close> included, and the user memory unchanged.
  A command that passes both checks and is none of the six command constants returns
  \<open>-ENOTTY\<close> too, after incrementing \<open>ioctl_count\<close> and storing \<open>-ENOTTY\<close> in
  \<open>last_error\<close>. The six command constants themselves pass both checks.
\<close>

theorem ioctl_ioctl_enotty:
  "(IOC_TYPE cmd \<noteq> IOCTL_MAGIC \<or> IOC_NR cmd > IOCTL_MAXNR \<longrightarrow>
      ioctl_ioctl dev us cmd arg residue = (- ENOTTY, dev, us)) \<and>
   (IOC_TYPE cmd = IOCTL_MAGIC \<and> IOC_NR cmd \<le> IOCTL_MAXNR \<and>
    cmd \<notin> {IOCTL_RESET, IOCTL_GET_STATS, IOCTL_GET_VALUE, IOCTL_SET_CONFIG, IOCTL_SET_VALUE,
            IOCTL_XFER_CONFIG} \<longrightarrow>
      ioctl_ioctl dev us cmd arg residue =
        (- ENOTTY, dev\<lparr>ioctl_count := ioctl_count dev + 1, last_error := - ENOTTY\<rparr>, us)) \<and>
   (cmd \<in> {IOCTL_RESET, IOCTL_GET_STATS, IOCTL_GET_VALUE, IOCTL_SET_CONFIG, IOCTL_SET_VALUE,
            IOCTL_XFER_CONFIG} \<longrightarrow>
      IOC_TYPE cmd = IOCTL_MAGIC \<and> IOC_NR cmd \<le> IOCTL_MAXNR)"
proof (intro conjI impI)
  assume "IOC_TYPE cmd \<noteq> IOCTL_MAGIC \<or> IOCTL_MAXNR < IOC_NR cmd"
  then show "ioctl_ioctl dev us cmd arg residue = (- ENOTTY, dev, us)"
    by (auto simp: ioctl_ioctl_def)
next
  assume "IOC_TYPE cmd = IOCTL_MAGIC \<and> IOC_NR cmd \<le> IOCTL_MAXNR \<and>
    cmd \<notin> {IOCTL_RESET, IOCTL_GET_STATS, IOCTL_GET_VALUE, IOCTL_SET_CONFIG, IOCTL_SET_VALUE,
            IOCTL_XFER_CONFIG}"
  then show "ioctl_ioctl dev us cmd arg residue =
        (- ENOTTY, dev\<lparr>ioctl_count := ioctl_count dev + 1, last_error := - ENOTTY\<rparr>, us)"
    by (simp add: ioctl_ioctl_def Let_def leD)
next
  assume c: "cmd \<in> {IOCTL_RESET, IOCTL_GET_STATS, IOCTL_GET_VALUE, IOCTL_SET_CONFIG, IOCTL_SET_VALUE,
            IOCTL_XFER_CONFIG}"
  then show "IOC_TYPE cmd = IOCTL_MAGIC"
    by (auto simp: ioctl_cmd_values IOC_TYPE_def IOCTL_MAGIC_def)
  from c show "IOC_NR cmd \<le> IOCTL_MAXNR"
    by (auto simp: ioctl_cmd_values IOC_NR_def IOCTL_MAXNR_def)
qed

theorem ioctl_ioctl_enotty_witness:
  "ioctl_ioctl ioctl_dev_init user_flat (IO IOCTL_MAGIC 99) 0 [] = (- ENOTTY, ioctl_dev_init, user_flat) \<and>
   ioctl_ioctl ioctl_dev_init user_flat 0x4601 0 [] = (- ENOTTY, ioctl_dev_init, user_flat) \<and>
   ioctl_ioctl ioctl_dev_init user_flat 0x4501 0 [] =
     (- ENOTTY, ioctl_dev_init\<lparr>ioctl_count := 1, last_error := - ENOTTY\<rparr>, user_flat) \<and>
   IOC_TYPE IOCTL_XFER_CONFIG = IOCTL_MAGIC \<and> IOC_NR IOCTL_XFER_CONFIG \<le> IOCTL_MAXNR"
proof -
  have a: "IOCTL_MAXNR < IOC_NR (IO IOCTL_MAGIC 99)"
    by (simp add: IO_def IOC_def IOC_NONE_def IOC_NR_def IOCTL_MAGIC_def IOCTL_MAXNR_def)
  have b: "IOC_TYPE 0x4601 \<noteq> IOCTL_MAGIC"
    by (simp add: IOC_TYPE_def IOCTL_MAGIC_def)
  have c: "IOC_TYPE 0x4501 = IOCTL_MAGIC" "IOC_NR 0x4501 \<le> IOCTL_MAXNR"
    "0x4501 \<notin> {IOCTL_RESET, IOCTL_GET_STATS, IOCTL_GET_VALUE, IOCTL_SET_CONFIG, IOCTL_SET_VALUE,
            IOCTL_XFER_CONFIG}"
    by (simp_all add: IOC_TYPE_def IOC_NR_def IOCTL_MAGIC_def IOCTL_MAXNR_def ioctl_cmd_values)
  have z: "ioctl_count ioctl_dev_init = 0" by (simp add: ioctl_dev_init_def)
  show ?thesis
    using ioctl_ioctl_enotty[of "IO IOCTL_MAGIC 99" ioctl_dev_init user_flat 0 "[]"]
      ioctl_ioctl_enotty[of "0x4601" ioctl_dev_init user_flat 0 "[]"]
      ioctl_ioctl_enotty[of "0x4501" ioctl_dev_init user_flat 0 "[]"]
      ioctl_ioctl_enotty[of IOCTL_XFER_CONFIG ioctl_dev_init user_flat 0 "[]"]
      a b c
    by (simp add: z)
qed

section \<open>Properties of the threaded interrupt demo\<close>

lemma s32_id: "- (2 ^ 31) \<le> x \<Longrightarrow> x < 2 ^ 31 \<Longrightarrow> s32 x = x"
proof -
  assume "- (2 ^ 31) \<le> x" "x < 2 ^ 31"
  then have "0 \<le> x + 2 ^ 31" "x + 2 ^ 31 < 2 ^ 32" by simp_all
  then have "(x + 2 ^ 31) mod 2 ^ 32 = x + 2 ^ 31" by (rule mod_pos_pos_trivial)
  then show ?thesis by (simp add: s32_def)
qed

lemma c_rem_nonneg: "0 \<le> a \<Longrightarrow> 0 < b \<Longrightarrow> c_rem a b = a mod b"
  by (cases "a = 0") (simp_all add: c_rem_def)

lemma those_map_Some:
  "(\<And>x. x \<in> set xs \<Longrightarrow> f x = Some (g x)) \<Longrightarrow> those (map f xs) = Some (map g xs)"
  by (induction xs) simp_all

lemma data_show_idx_inv:
  assumes "ring_inv dev" "0 \<le> i" "i < data_count dev"
  shows "data_show_idx dev (data_count dev) i = (data_head dev - data_count dev + i) mod 64"
    and "0 \<le> data_show_idx dev (data_count dev) i" and "data_show_idx dev (data_count dev) i < 64"
proof -
  let ?h = "data_head dev" and ?c = "data_count dev"
  have r: "0 \<le> ?h" "?h < 64" "0 \<le> ?c" "?c \<le> 64" using assms(1) by (simp_all add: ring_inv_def)
  have a: "s32 (?h - ?c) = ?h - ?c" using r by (intro s32_id) simp_all
  have b: "s32 (?h - ?c + i) = ?h - ?c + i" using r assms by (intro s32_id) simp_all
  have c: "s32 (?h - ?c + i + 64) = ?h - ?c + i + 64" using r assms by (intro s32_id) simp_all
  have d: "0 \<le> ?h - ?c + i + 64" using r assms by simp
  show e: "data_show_idx dev ?c i = (?h - ?c + i) mod 64"
    unfolding data_show_idx_def IRQ_BUFFER_SIZE_def a b c using d by (simp add: c_rem_nonneg)
  show "0 \<le> data_show_idx dev ?c i" "data_show_idx dev ?c i < 64" unfolding e by simp_all
qed

lemma data_show_inv:
  assumes "ring_inv dev"
  shows "data_show (Some dev) =
     Some (0, Header (data_count dev) #
              map (\<lambda>i. Entry (int i)
                     (data_buffer dev ! nat ((data_head dev - data_count dev + int i) mod 64)))
                [0..<nat (data_count dev)])"
proof -
  have "those (map (\<lambda>i. data_show_entry dev (data_count dev) (int i)) [0..<nat (data_count dev)]) =
        Some (map (\<lambda>i. Entry (int i)
                     (data_buffer dev ! nat ((data_head dev - data_count dev + int i) mod 64)))
                [0..<nat (data_count dev)])"
  proof (rule those_map_Some)
    fix x assume "x \<in> set [0..<nat (data_count dev)]"
    then have x: "0 \<le> int x" "int x < data_count dev" by auto
    show "data_show_entry dev (data_count dev) (int x) =
       Some (Entry (int x) (data_buffer dev ! nat ((data_head dev - data_count dev + int x) mod 64)))"
      using data_show_idx_inv[OF assms x]
      by (simp add: data_show_entry_def IRQ_BUFFER_SIZE_def)
  qed
  then show ?thesis by (simp add: data_show_def Let_def)
qed

lemma demo_thread_handler_inv:
  assumes "ring_inv dev"
  shows "\<exists>dev'. demo_thread_handler now dev = Some (IRQ_HANDLED, dev') \<and> ring_inv dev' \<and>
        data_buffer dev' = (data_buffer dev)[nat (data_head dev) := hw_data dev] \<and>
        data_head dev' = (data_head dev + 1) mod 64 \<and>
        data_count dev' = min (data_count dev + 1) 64"
proof -
  let ?h = "data_head dev" and ?c = "data_count dev"
  have r: "0 \<le> ?h" "?h < 64" "0 \<le> ?c" "?c \<le> 64" "length (data_buffer dev) = 64"
    using assms by (simp_all add: ring_inv_def)
  have a: "s32 (?h + 1) = ?h + 1" using r by (intro s32_id) simp_all
  have b: "s32 (?c + 1) = ?c + 1" using r by (intro s32_id) simp_all
  have c: "c_rem (?h + 1) 64 = (?h + 1) mod 64" using r by (intro c_rem_nonneg) simp_all
  show ?thesis
    unfolding demo_thread_handler_def Let_def IRQ_BUFFER_SIZE_def a b c using r
    by (auto simp: ring_inv_def)
qed

lemma control_write_inv:
  assumes "ring_inv dev" "control_write k m j (Some dev) us buf count = (ret, d)"
  shows "\<exists>dev'. d = Some dev' \<and> ring_inv dev'"
  using assms
  by (auto simp: control_write_def Let_def ring_inv_def mod_timer_interval_def
           split: prod.splits if_splits option.splits)

lemma control_write_reset:
  assumes "ring_inv dev" "copy_from_user us buf (min count 31) = (bytes, 0)"
    "control_command bytes = cstr ''reset''"
  shows "\<exists>dev'. control_write k m j (Some dev) us buf count = (s64 (int count), Some dev') \<and>
           ring_inv dev' \<and> data_count dev' = 0 \<and> data_head dev' = 0 \<and>
           data_buffer dev' = data_buffer dev"
  using assms by (simp add: control_write_def Let_def ring_inv_def cstr_def)

lemma oldest_slot:
  assumes "ring_inv dev" "data_count dev = 64"
  shows "data_show_idx dev (data_count dev) 0 = data_head dev"
proof -
  have "0 < data_count dev" using assms by simp
  then have "data_show_idx dev (data_count dev) 0 = (data_head dev - data_count dev + 0) mod 64"
    using data_show_idx_inv(1)[OF assms(1), of 0] by simp
  then show ?thesis using assms by (simp add: ring_inv_def)
qed

lemma lock_discipline_loads:
  "lock_discipline True (concat (map (\<lambda>i. [Load f, Load g]) xs) @ es) = lock_discipline True es"
  by (induction xs) simp_all

lemma handler_events_protected: "lock_protected (demo_thread_handler_events dev)"
  by (simp add: lock_protected_def demo_thread_handler_events_def)

lemma data_show_events_protected: "lock_protected (data_show_events dev_ptr)"
  by (cases dev_ptr) (simp_all add: lock_protected_def data_show_events_def lock_discipline_loads)

lemma control_write_events_protected: "lock_protected (control_write_events dev_ptr us buf count)"
  by (cases dev_ptr)
     (simp_all add: lock_protected_def control_write_events_def split: prod.splits)

lemma control_write_events_reset:
  "copy_from_user us buf (min count 31) = (bytes, 0) \<Longrightarrow> control_command bytes = cstr ''reset'' \<Longrightarrow>
   control_write_events (Some dev) us buf count =
     [Mutex_lock, Store Data_count, Store Data_head, Mutex_unlock]"
  by (simp add: control_write_events_def)

lemma stats_show_count:
  "fst (stats_show (Some dev)) = 0 \<and>
   map_option rep_data_count (snd (stats_show (Some dev))) = Some (data_count dev)"
  by (simp add: stats_show_def Let_def)

text \<open>
  The ring buffer, operation by operation. The three operations that store to the
  ring buffer or read its contents (the threaded handler, the data dump and the reset
  command) make all their accesses of \<open>data_buffer\<close>, \<open>data_head\<close> and
  \<open>data_count\<close> between \<open>mutex_lock\<close> and \<open>mutex_unlock\<close> of the one
  \<open>data_mutex\<close>, and so does every other command of \<open>control_write\<close>, which
  touches none of them. Each preserves \<open>0 \<le> data_count \<le> 64\<close> and
  \<open>0 \<le> data_head < 64\<close>: the handler stores \<open>hw_data\<close> at index
  \<open>data_head\<close>, advances \<open>data_head\<close> modulo 64 and increments \<open>data_count\<close>
  up to 64; the dump stays inside the array and prints the \<open>data_count\<close> newest
  entries, oldest first; reset sets both fields to 0 and leaves the array as it was.
  \<open>stats_show\<close> changes nothing, and its one access of the ring buffer is a load of
  \<open>data_count\<close>. When the buffer is full, the slot the handler overwrites is the
  slot of the oldest entry.
\<close>

theorem ring_buffer_invariant:
  assumes "ring_inv dev"
  shows
   "(\<exists>dev'. demo_thread_handler now dev = Some (IRQ_HANDLED, dev') \<and> ring_inv dev' \<and>
        data_buffer dev' = (data_buffer dev)[nat (data_head dev) := hw_data dev] \<and>
        data_head dev' = (data_head dev + 1) mod 64 \<and>
        data_count dev' = min (data_count dev + 1) 64) \<and>
    lock_protected (demo_thread_handler_events dev) \<and>
    data_show (Some dev) =
      Some (0, Header (data_count dev) #
               map (\<lambda>i. Entry (int i)
                      (data_buffer dev ! nat ((data_head dev - data_count dev + int i) mod 64)))
                 [0..<nat (data_count dev)]) \<and>
    lock_protected (data_show_events (Some dev)) \<and>
    (copy_from_user us buf (min count 31) = (bytes, 0) \<and> control_command bytes = cstr ''reset'' \<longrightarrow>
       (\<exists>dev'. control_write k m j (Some dev) us buf count = (s64 (int count), Some dev') \<and>
               ring_inv dev' \<and> data_count dev' = 0 \<and> data_head dev' = 0 \<and>
               data_buffer dev' = data_buffer dev) \<and>
       control_write_events (Some dev) us buf count =
         [Mutex_lock, Store Data_count, Store Data_head, Mutex_unlock]) \<and>
    (\<forall>ret d. control_write k m j (Some dev) us buf count = (ret, d) \<longrightarrow>
       (\<exists>dev'. d = Some dev' \<and> ring_inv dev')) \<and>
    lock_protected (control_write_events (Some dev) us buf count) \<and>
    fst (stats_show (Some dev)) = 0 \<and>
    map_option rep_data_count (snd (stats_show (Some dev))) = Some (data_count dev) \<and>
    stats_show_events (Some dev) = [Load Data_count] \<and>
    (data_count dev = 64 \<longrightarrow> data_show_idx dev (data_count dev) 0 = data_head dev)"
proof -
  have ev: "stats_show_events (Some dev) = [Load Data_count]"
    by (simp add: stats_show_events_def)
  show ?thesis
    using demo_thread_handler_inv[OF assms, of now] data_show_inv[OF assms]
      control_write_reset[OF assms, of us buf count bytes k m j]
      control_write_events_reset[of us buf count bytes dev]
      control_write_inv[OF assms, of k m j us buf count] oldest_slot[OF assms]
      handler_events_protected[of dev] data_show_events_protected[of "Some dev"]
      control_write_events_protected[of "Some dev" us buf count]
      stats_show_count[of dev] ev
    by blast
qed

lemma user_ok_string: "user_ok (user_string s) a n"
  by (simp add: user_ok_def user_string_def list_all_iff)

lemma ring_inv_full: "ring_inv ring_full"
  by (simp add: ring_inv_def ring_full_def irq_demo_zero_def)

lemma reset_line_copy:
  "copy_from_user (user_string reset_line) 0 (min 6 31) = (cstr reset_line, 0)"
proof -
  have "map (umem (user_string reset_line)) [0..<0 + 6] = cstr reset_line"
    by (simp add: user_string_def reset_line_def cstr_def upt_rec)
  then show ?thesis
    using copy_from_user_ok[OF user_ok_string, of reset_line 0 6] by simp
qed

lemma reset_line_command: "control_command (cstr reset_line) = cstr ''reset''"
  by (simp add: control_command_def reset_line_def cstr_def Let_def)

theorem ring_buffer_invariant_witness:
  "ring_inv ring_full \<and>
   (\<exists>dev'. demo_thread_handler 0 ring_full = Some (IRQ_HANDLED, dev') \<and> ring_inv dev' \<and>
        data_buffer dev' ! 3 = 5 \<and> data_head dev' = 4 \<and> data_count dev' = 64) \<and>
   (\<exists>dev'. control_write kstrtouint_10 msecs_to_jiffies_1000 0 (Some ring_full)
             (user_string reset_line) 0 6 = (6, Some dev') \<and>
        ring_inv dev' \<and> data_count dev' = 0 \<and> data_head dev' = 0) \<and>
   control_write_events (Some ring_full) (user_string reset_line) 0 6 =
     [Mutex_lock, Store Data_count, Store Data_head, Mutex_unlock] \<and>
   lock_protected (demo_thread_handler_events ring_full) \<and>
   lock_protected (data_show_events (Some ring_full)) \<and>
   data_show_idx ring_full 64 0 = 3"
proof -
  have v: "data_head ring_full = 3" "data_count ring_full = 64" "hw_data ring_full = 5"
    "length (data_buffer ring_full) = 64"
    by (simp_all add: ring_full_def irq_demo_zero_def)
  have s6: "s64 6 = 6" by (simp add: s64_def)
  note th = ring_buffer_invariant[OF ring_inv_full, of 0 "user_string reset_line" 0 6
      "cstr reset_line" kstrtouint_10 msecs_to_jiffies_1000 0]
  from th obtain d1 where d1: "demo_thread_handler 0 ring_full = Some (IRQ_HANDLED, d1)"
    "ring_inv d1" "data_buffer d1 = (data_buffer ring_full)[nat (data_head ring_full) := hw_data ring_full]"
    "data_head d1 = (data_head ring_full + 1) mod 64"
    "data_count d1 = min (data_count ring_full + 1) 64"
    by blast
  have a: "data_buffer d1 ! 3 = 5 \<and> data_head d1 = 4 \<and> data_count d1 = 64"
    using d1(3,4,5) by (simp add: v)
  from th reset_line_copy reset_line_command
  obtain d2 where d2: "control_write kstrtouint_10 msecs_to_jiffies_1000 0 (Some ring_full)
             (user_string reset_line) 0 6 = (s64 (int 6), Some d2)"
    "ring_inv d2" "data_count d2 = 0" "data_head d2 = 0"
    by blast
  from th reset_line_copy reset_line_command
  have e: "control_write_events (Some ring_full) (user_string reset_line) 0 6 =
     [Mutex_lock, Store Data_count, Store Data_head, Mutex_unlock]"
    by blast
  from th have p: "lock_protected (demo_thread_handler_events ring_full)"
    "lock_protected (data_show_events (Some ring_full))"
    by blast+
  from th have c: "data_show_idx ring_full 64 0 = 3" by (simp add: v)
  show ?thesis using ring_inv_full d1(1,2) a d2 e p c by (auto simp: s6)
qed


lemma probe_dev:
  "demo_probe True mkdir_ok g =
     (0, g\<lparr>demo_dev := Some (irq_demo_zero\<lparr>interval_ms := 100\<rparr>), proc_dir := mkdir_ok,
            proc_entries := (if mkdir_ok then proc_entries g @ demo_proc_names
                             else proc_entries g)\<rparr>)"
  by (simp add: demo_probe_def irq_demo_zero_def Let_def)

lemma probe_fail: "fst (demo_probe alloc_ok mkdir_ok g) = 0 \<Longrightarrow> alloc_ok"
  by (simp add: demo_probe_def ENOMEM_def split: if_splits)

lemma ring_inv_zero: "ring_inv (irq_demo_zero\<lparr>interval_ms := 100\<rparr>)"
  by (simp add: ring_inv_def irq_demo_zero_def)

lemma control_write_start:
  assumes "\<not> running dev"
    "copy_from_user us buf (min count 31) = (bytes, 0)"
    "control_command bytes = cstr ''start''"
  shows "\<exists>dev'. control_write k m j (Some dev) us buf count = (s64 (int count), Some dev') \<and>
           running dev' \<and> timer dev' = Some ((j + m (interval_ms dev)) mod 2 ^ 64) \<and>
           interval_ms dev' = interval_ms dev"
  using assms by (simp add: control_write_def Let_def mod_timer_interval_def)

lemma timer_fire_running:
  "running dev \<Longrightarrow>
   \<exists>dev'. irq_step k m (Timer_fire random now j) dev = Some dev' \<and> pending_irq dev' = 1 \<and>
          running dev' \<and> timer dev' = Some ((j + m (interval_ms dev)) mod 2 ^ 64)"
  by (simp add: trigger_simulated_irq_def mod_timer_interval_def)

text \<open>The state a device keeps as long as it has not been started.\<close>

lemma quiet_step:
  assumes "quiet d" "hardirq_count d = 0" "ring_inv d" "\<not> is_start e"
  shows "\<exists>d'. irq_step k m e d = Some d' \<and> quiet d' \<and> hardirq_count d' = 0 \<and> ring_inv d'"
proof (cases e)
  case (Timer_fire random now jiffies)
  then show ?thesis
    using assms by (simp add: trigger_simulated_irq_def quiet_def ring_inv_def)
next
  case Hardirq
  then show ?thesis
    using assms by (simp add: demo_hardirq_def quiet_def ring_inv_def)
next
  case (Thread_wake now)
  obtain d' where h: "demo_thread_handler now d = Some (IRQ_HANDLED, d')" "ring_inv d'"
    using demo_thread_handler_inv[OF assms(3), of now] by blast
  have "quiet d' \<and> hardirq_count d' = 0"
    using h(1) assms(1,2)
    by (auto simp: demo_thread_handler_def Let_def quiet_def split: if_splits)
  then show ?thesis using Thread_wake h by simp
next
  case (Control_write us buf count jiffies)
  obtain bytes left where c: "copy_from_user us buf (min count 31) = (bytes, left)"
    by (cases "copy_from_user us buf (min count 31)")
  have n: "control_command bytes \<noteq> cstr ''start''"
    using assms(4) Control_write c by simp
  show ?thesis
    using Control_write assms(1,2,3) c n
    by (auto simp: control_write_def Let_def quiet_def ring_inv_def split: option.splits)
next
  case Data_read
  then show ?thesis
    using data_show_inv[OF assms(3)] assms by simp
qed

lemma quiet_run:
  "quiet d \<Longrightarrow> hardirq_count d = 0 \<Longrightarrow> ring_inv d \<Longrightarrow> list_all (\<lambda>e. \<not> is_start e) es \<Longrightarrow>
   \<exists>d'. irq_run k m es d = Some d' \<and> quiet d' \<and> hardirq_count d' = 0 \<and> ring_inv d'"
proof (induction es arbitrary: d)
  case Nil
  then show ?case by simp
next
  case (Cons e es)
  from Cons.prems obtain d1 where
    s: "irq_step k m e d = Some d1" "quiet d1" "hardirq_count d1 = 0" "ring_inv d1"
    using quiet_step[of d e k m] by auto
  from Cons.IH[OF s(2,3,4)] Cons.prems(4) obtain d' where
    "irq_run k m es d1 = Some d'" "quiet d'" "hardirq_count d' = 0" "ring_inv d'"
    by auto
  then show ?case using s(1) by auto
qed

lemma demo_remove_stops:
  "fst (demo_remove rdev rg) = 0 \<and> \<not> running (fst (snd (demo_remove rdev rg))) \<and>
   timer (fst (snd (demo_remove rdev rg))) = None \<and>
   demo_dev (snd (snd (demo_remove rdev rg))) = None"
  by (simp add: demo_remove_def)

text \<open>
  Claim C10. When \<open>demo_probe\<close> returns 0 the new device is not running, its interval
  is 100 ms, the pending flag and the three counters are 0, the data buffer is empty
  (\<open>data_count = 0\<close>, and the dump prints no entry) and the timer is not armed.
  From that device, after every sequence of timer expiries, handler runs, reads of the
  data file and control commands none of which is \<open>start\<close>, the device is still not
  running, its timer unarmed, no interrupt pending and none counted; any such event
  keeps any quiet device quiet. The \<open>start\<close> command sets \<open>running\<close> and arms the
  timer, and the next expiry raises the pending flag. \<open>demo_probe\<close> fails only with
  \<open>-ENOMEM\<close>, leaving the globals as they were. \<open>demo_remove\<close>, on any device,
  returns 0, clears \<open>running\<close>, stops the timer and resets \<open>demo_dev\<close>.
\<close>

theorem probe_remove_spec:
  "(fst (demo_probe alloc_ok mkdir_ok g) = 0 \<longrightarrow>
      (\<exists>dev. demo_dev (snd (demo_probe alloc_ok mkdir_ok g)) = Some dev \<and>
         \<not> running dev \<and> interval_ms dev = 100 \<and> pending_irq dev = 0 \<and>
         hardirq_count dev = 0 \<and> thread_count dev = 0 \<and> spurious_count dev = 0 \<and>
         data_count dev = 0 \<and> data_head dev = 0 \<and> ring_inv dev \<and>
         data_show (Some dev) = Some (0, [Header 0]) \<and>
         timer dev = None \<and>
         trigger_simulated_irq m2j jiffies random now dev = dev \<and>
         (\<forall>es. list_all (\<lambda>e. \<not> is_start e) es \<longrightarrow>
            (\<exists>dev'. irq_run k m2j es dev = Some dev' \<and> \<not> running dev' \<and> timer dev' = None \<and>
                    pending_irq dev' = 0 \<and> hardirq_count dev' = 0)) \<and>
         (\<forall>us buf count j bytes.
            copy_from_user us buf (min count 31) = (bytes, 0) \<and>
            control_command bytes = cstr ''start'' \<longrightarrow>
            (\<exists>dev'. control_write k m2j j (Some dev) us buf count = (s64 (int count), Some dev') \<and>
                    running dev' \<and> timer dev' = Some ((j + m2j 100) mod 2 ^ 64) \<and>
                    (\<forall>r t j2. \<exists>dev''. irq_step k m2j (Timer_fire r t j2) dev' = Some dev'' \<and>
                                      pending_irq dev'' = 1))))) \<and>
   (fst (demo_probe alloc_ok mkdir_ok g) \<noteq> 0 \<longrightarrow>
      demo_probe alloc_ok mkdir_ok g = (- ENOMEM, g)) \<and>
   (\<forall>d e. quiet d \<and> hardirq_count d = 0 \<and> ring_inv d \<and> \<not> is_start e \<longrightarrow>
      (\<exists>d'. irq_step k m2j e d = Some d' \<and> quiet d' \<and> hardirq_count d' = 0 \<and> ring_inv d')) \<and>
   (\<forall>qdev. \<not> running qdev \<longrightarrow> trigger_simulated_irq m2j jiffies random now qdev = qdev) \<and>
   fst (demo_remove rdev rg) = 0 \<and>
   \<not> running (fst (snd (demo_remove rdev rg))) \<and>
   timer (fst (snd (demo_remove rdev rg))) = None \<and>
   demo_dev (snd (snd (demo_remove rdev rg))) = None"
proof -
  let ?dev = "irq_demo_zero\<lparr>interval_ms := 100\<rparr>"
  have f: "\<not> running ?dev" "interval_ms ?dev = 100" "pending_irq ?dev = 0"
    "hardirq_count ?dev = 0" "thread_count ?dev = 0" "spurious_count ?dev = 0"
    "data_count ?dev = 0" "data_head ?dev = 0" "timer ?dev = None"
    by (simp_all add: irq_demo_zero_def)
  have q: "quiet ?dev" using f by (simp add: quiet_def)
  have s: "data_show (Some ?dev) = Some (0, [Header 0])"
    using data_show_inv[OF ring_inv_zero] by (simp add: f)
  have t: "trigger_simulated_irq m2j jiffies random now ?dev = ?dev"
    using f by (simp add: trigger_simulated_irq_def)
  have r: "\<forall>es. list_all (\<lambda>e. \<not> is_start e) es \<longrightarrow>
            (\<exists>dev'. irq_run k m2j es ?dev = Some dev' \<and> \<not> running dev' \<and> timer dev' = None \<and>
                    pending_irq dev' = 0 \<and> hardirq_count dev' = 0)"
  proof (intro allI impI)
    fix es assume "list_all (\<lambda>e. \<not> is_start e) es"
    then obtain d' where "irq_run k m2j es ?dev = Some d'" "quiet d'" "hardirq_count d' = 0"
      using quiet_run[OF q f(4) ring_inv_zero, of es k m2j] by blast
    then show "\<exists>dev'. irq_run k m2j es ?dev = Some dev' \<and> \<not> running dev' \<and> timer dev' = None \<and>
                    pending_irq dev' = 0 \<and> hardirq_count dev' = 0"
      by (auto simp: quiet_def)
  qed
  have c: "\<forall>us buf count j bytes.
            copy_from_user us buf (min count 31) = (bytes, 0) \<and>
            control_command bytes = cstr ''start'' \<longrightarrow>
            (\<exists>dev'. control_write k m2j j (Some ?dev) us buf count = (s64 (int count), Some dev') \<and>
                    running dev' \<and> timer dev' = Some ((j + m2j 100) mod 2 ^ 64) \<and>
                    (\<forall>r t j2. \<exists>dev''. irq_step k m2j (Timer_fire r t j2) dev' = Some dev'' \<and>
                                      pending_irq dev'' = 1))"
  proof (intro allI impI)
    fix us buf count j bytes
    assume a: "copy_from_user us buf (min count 31) = (bytes, 0) \<and>
            control_command bytes = cstr ''start''"
    obtain d' where d: "control_write k m2j j (Some ?dev) us buf count = (s64 (int count), Some d')"
      "running d'" "timer d' = Some ((j + m2j (interval_ms ?dev)) mod 2 ^ 64)"
      using control_write_start[OF f(1), of us buf count bytes k m2j j] a by blast
    have "\<forall>r t j2. \<exists>dev''. irq_step k m2j (Timer_fire r t j2) d' = Some dev'' \<and> pending_irq dev'' = 1"
      using timer_fire_running[OF d(2), of k m2j] by blast
    then show "\<exists>dev'. control_write k m2j j (Some ?dev) us buf count = (s64 (int count), Some dev') \<and>
                    running dev' \<and> timer dev' = Some ((j + m2j 100) mod 2 ^ 64) \<and>
                    (\<forall>r t j2. \<exists>dev''. irq_step k m2j (Timer_fire r t j2) dev' = Some dev'' \<and>
                                      pending_irq dev'' = 1)"
      using d f(2) by auto
  qed
  have p: "fst (demo_probe alloc_ok mkdir_ok g) = 0 \<longrightarrow>
      demo_dev (snd (demo_probe alloc_ok mkdir_ok g)) = Some ?dev"
  proof
    assume "fst (demo_probe alloc_ok mkdir_ok g) = 0"
    then have alloc_ok by (rule probe_fail)
    then show "demo_dev (snd (demo_probe alloc_ok mkdir_ok g)) = Some ?dev"
      by (simp add: probe_dev)
  qed
  have n: "fst (demo_probe alloc_ok mkdir_ok g) \<noteq> 0 \<longrightarrow>
      demo_probe alloc_ok mkdir_ok g = (- ENOMEM, g)"
    by (cases alloc_ok) (simp_all add: demo_probe_def Let_def)
  have st: "\<forall>d e. quiet d \<and> hardirq_count d = 0 \<and> ring_inv d \<and> \<not> is_start e \<longrightarrow>
      (\<exists>d'. irq_step k m2j e d = Some d' \<and> quiet d' \<and> hardirq_count d' = 0 \<and> ring_inv d')"
    using quiet_step[of _ _ k m2j] by blast
  have tr: "\<forall>qdev. \<not> running qdev \<longrightarrow> trigger_simulated_irq m2j jiffies random now qdev = qdev"
    by (simp add: trigger_simulated_irq_def)
  have pr: "fst (demo_probe alloc_ok mkdir_ok g) = 0 \<longrightarrow>
      (\<exists>dev. demo_dev (snd (demo_probe alloc_ok mkdir_ok g)) = Some dev \<and>
         \<not> running dev \<and> interval_ms dev = 100 \<and> pending_irq dev = 0 \<and>
         hardirq_count dev = 0 \<and> thread_count dev = 0 \<and> spurious_count dev = 0 \<and>
         data_count dev = 0 \<and> data_head dev = 0 \<and> ring_inv dev \<and>
         data_show (Some dev) = Some (0, [Header 0]) \<and>
         timer dev = None \<and>
         trigger_simulated_irq m2j jiffies random now dev = dev \<and>
         (\<forall>es. list_all (\<lambda>e. \<not> is_start e) es \<longrightarrow>
            (\<exists>dev'. irq_run k m2j es dev = Some dev' \<and> \<not> running dev' \<and> timer dev' = None \<and>
                    pending_irq dev' = 0 \<and> hardirq_count dev' = 0)) \<and>
         (\<forall>us buf count j bytes.
            copy_from_user us buf (min count 31) = (bytes, 0) \<and>
            control_command bytes = cstr ''start'' \<longrightarrow>
            (\<exists>dev'. control_write k m2j j (Some dev) us buf count = (s64 (int count), Some dev') \<and>
                    running dev' \<and> timer dev' = Some ((j + m2j 100) mod 2 ^ 64) \<and>
                    (\<forall>r t j2. \<exists>dev''. irq_step k m2j (Timer_fire r t j2) dev' = Some dev'' \<and>
                                      pending_irq dev'' = 1))))"
  proof
    assume z: "fst (demo_probe alloc_ok mkdir_ok g) = 0"
    show "\<exists>dev. demo_dev (snd (demo_probe alloc_ok mkdir_ok g)) = Some dev \<and>
         \<not> running dev \<and> interval_ms dev = 100 \<and> pending_irq dev = 0 \<and>
         hardirq_count dev = 0 \<and> thread_count dev = 0 \<and> spurious_count dev = 0 \<and>
         data_count dev = 0 \<and> data_head dev = 0 \<and> ring_inv dev \<and>
         data_show (Some dev) = Some (0, [Header 0]) \<and>
         timer dev = None \<and>
         trigger_simulated_irq m2j jiffies random now dev = dev \<and>
         (\<forall>es. list_all (\<lambda>e. \<not> is_start e) es \<longrightarrow>
            (\<exists>dev'. irq_run k m2j es dev = Some dev' \<and> \<not> running dev' \<and> timer dev' = None \<and>
                    pending_irq dev' = 0 \<and> hardirq_count dev' = 0)) \<and>
         (\<forall>us buf count j bytes.
            copy_from_user us buf (min count 31) = (bytes, 0) \<and>
            control_command bytes = cstr ''start'' \<longrightarrow>
            (\<exists>dev'. control_write k m2j j (Some dev) us buf count = (s64 (int count), Some dev') \<and>
                    running dev' \<and> timer dev' = Some ((j + m2j 100) mod 2 ^ 64) \<and>
                    (\<forall>r t j2. \<exists>dev''. irq_step k m2j (Timer_fire r t j2) dev' = Some dev'' \<and>
                                      pending_irq dev'' = 1)))"
      apply (rule exI[of _ ?dev])
      using p z f s t r c ring_inv_zero by (intro conjI) (simp_all only: simp_thms)
  qed
  show ?thesis
    using pr n st tr demo_remove_stops[of rdev rg] by (intro conjI) (simp_all only: simp_thms)
qed

lemma user_string_copy:
  assumes "n = length s" "n \<le> 31"
  shows "copy_from_user (user_string s) 0 (min n 31) = (cstr s, 0)"
proof -
  have "map (umem (user_string s)) [0..<0 + n] = cstr s"
    using assms(1) by (auto simp: user_string_def cstr_def intro!: nth_equalityI)
  then show ?thesis
    using copy_from_user_ok[OF user_ok_string, of s 0 n] assms(2) by (simp add: min_def)
qed

lemma interval_line_command: "control_command (cstr interval_line) \<noteq> cstr ''start''"
  by (simp add: control_command_def interval_line_def cstr_def Let_def)

lemma start_line_command: "control_command (cstr start_line) = cstr ''start''"
  by (simp add: control_command_def start_line_def cstr_def Let_def)

lemma quiet_events_no_start: "list_all (\<lambda>e. \<not> is_start e) quiet_events"
proof -
  have a: "copy_from_user (user_string interval_line) 0 10 = (cstr interval_line, 0)"
    using user_string_copy[of 10 interval_line] by (simp add: interval_line_def)
  have r: "copy_from_user (user_string reset_line) 0 6 = (cstr reset_line, 0)"
    using reset_line_copy by simp
  have "cstr ''reset'' \<noteq> cstr ''start''" by (simp add: cstr_def)
  then have b: "control_command (cstr reset_line) \<noteq> cstr ''start''"
    by (simp only: reset_line_command not_False_eq_True)
  show ?thesis
    by (simp add: quiet_events_def a r interval_line_command b)
qed

theorem probe_remove_spec_witness:
  "fst (demo_probe True True irq_globals_init) = 0 \<and>
   (\<exists>dev. demo_dev (snd (demo_probe True True irq_globals_init)) = Some dev \<and>
          \<not> running dev \<and> interval_ms dev = 100 \<and> pending_irq dev = 0 \<and>
          data_count dev = 0 \<and> data_show (Some dev) = Some (0, [Header 0]) \<and>
          timer dev = None \<and>
          (\<exists>dev'. irq_run kstrtouint_10 msecs_to_jiffies_1000 quiet_events dev = Some dev' \<and>
                  \<not> running dev' \<and> timer dev' = None \<and> pending_irq dev' = 0) \<and>
          (\<exists>dev'. control_write kstrtouint_10 msecs_to_jiffies_1000 0 (Some dev)
                    (user_string start_line) 0 5 = (5, Some dev') \<and>
                  running dev' \<and> timer dev' = Some 100 \<and>
                  (\<exists>dev''. irq_step kstrtouint_10 msecs_to_jiffies_1000 (Timer_fire 7 0 100) dev'
                             = Some dev'' \<and> pending_irq dev'' = 1))) \<and>
   demo_probe False True irq_globals_init = (- ENOMEM, irq_globals_init) \<and>
   running irq_started \<and> timer irq_started = Some 100 \<and>
   \<not> running (fst (snd (demo_remove irq_started irq_globals_init))) \<and>
   timer (fst (snd (demo_remove irq_started irq_globals_init))) = None"
proof -
  have p: "fst (demo_probe True True irq_globals_init) = 0"
    by (simp add: demo_probe_def Let_def)
  have q: "fst (demo_probe False True irq_globals_init) \<noteq> 0"
    by (simp add: demo_probe_def ENOMEM_def)
  have sc: "copy_from_user (user_string start_line) 0 (min 5 31) = (cstr start_line, 0)"
    by (rule user_string_copy) (simp_all add: start_line_def)
  have s5: "s64 (int 5) = 5" by (simp add: s64_def)
  have m: "(0 + msecs_to_jiffies_1000 100) mod 2 ^ 64 = 100"
    by (simp add: msecs_to_jiffies_1000_def)
  have st: "running irq_started" "timer irq_started = Some 100"
    by (simp_all add: irq_started_def)
  note t1 = probe_remove_spec[where alloc_ok = True and mkdir_ok = True and g = irq_globals_init
      and ?m2j = msecs_to_jiffies_1000 and jiffies = 0 and random = 7 and now = 0
      and k = kstrtouint_10 and rdev = irq_started and rg = irq_globals_init]
  note t2 = probe_remove_spec[where alloc_ok = False and mkdir_ok = True and g = irq_globals_init
      and ?m2j = msecs_to_jiffies_1000 and jiffies = 0 and random = 7 and now = 0
      and k = kstrtouint_10 and rdev = irq_started and rg = irq_globals_init]
  from t1 p obtain dev where d: "demo_dev (snd (demo_probe True True irq_globals_init)) = Some dev"
    "\<not> running dev" "interval_ms dev = 100" "pending_irq dev = 0" "data_count dev = 0"
    "data_show (Some dev) = Some (0, [Header 0])" "timer dev = None"
    and run: "\<forall>es. list_all (\<lambda>e. \<not> is_start e) es \<longrightarrow>
            (\<exists>dev'. irq_run kstrtouint_10 msecs_to_jiffies_1000 es dev = Some dev' \<and>
                    \<not> running dev' \<and> timer dev' = None \<and>
                    pending_irq dev' = 0 \<and> hardirq_count dev' = 0)"
    and start: "\<forall>us buf count j bytes.
            copy_from_user us buf (min count 31) = (bytes, 0) \<and>
            control_command bytes = cstr ''start'' \<longrightarrow>
            (\<exists>dev'. control_write kstrtouint_10 msecs_to_jiffies_1000 j (Some dev) us buf count
                      = (s64 (int count), Some dev') \<and>
                    running dev' \<and> timer dev' = Some ((j + msecs_to_jiffies_1000 100) mod 2 ^ 64) \<and>
                    (\<forall>r t j2. \<exists>dev''. irq_step kstrtouint_10 msecs_to_jiffies_1000
                                         (Timer_fire r t j2) dev' = Some dev'' \<and>
                                      pending_irq dev'' = 1))"
    by blast
  from run quiet_events_no_start obtain d1 where
    d1: "irq_run kstrtouint_10 msecs_to_jiffies_1000 quiet_events dev = Some d1"
    "\<not> running d1" "timer d1 = None" "pending_irq d1 = 0"
    by blast
  from start sc start_line_command obtain d2 where
    d2: "control_write kstrtouint_10 msecs_to_jiffies_1000 0 (Some dev) (user_string start_line) 0 5
           = (s64 (int 5), Some d2)"
    "running d2" "timer d2 = Some ((0 + msecs_to_jiffies_1000 100) mod 2 ^ 64)"
    "\<forall>r t j2. \<exists>dev''. irq_step kstrtouint_10 msecs_to_jiffies_1000 (Timer_fire r t j2) d2
                     = Some dev'' \<and> pending_irq dev'' = 1"
    by blast
  from d2(4) obtain d3 where
    d3: "irq_step kstrtouint_10 msecs_to_jiffies_1000 (Timer_fire 7 0 100) d2 = Some d3"
    "pending_irq d3 = 1"
    by blast
  from t2 q have f: "demo_probe False True irq_globals_init = (- ENOMEM, irq_globals_init)"
    by blast
  from t1 have r: "\<not> running (fst (snd (demo_remove irq_started irq_globals_init)))"
    "timer (fst (snd (demo_remove irq_started irq_globals_init))) = None"
    by blast+
  have e2: "\<exists>dev'. control_write kstrtouint_10 msecs_to_jiffies_1000 0 (Some dev)
                    (user_string start_line) 0 5 = (5, Some dev') \<and>
                  running dev' \<and> timer dev' = Some 100 \<and>
                  (\<exists>dev''. irq_step kstrtouint_10 msecs_to_jiffies_1000 (Timer_fire 7 0 100) dev'
                             = Some dev'' \<and> pending_irq dev'' = 1)"
    using d2(1,2,3) d3 unfolding s5 m by blast
  show ?thesis using p d d1 e2 f st r by blast
qed

section \<open>Properties of the software clock\<close>














section \<open>Properties of the RAM disk\<close>

lemma seg_len_bound: "seg_len b < 2 ^ 32"
  unfolding seg_len_def using unsigned_less[of "bv_len b", where ?'a = nat] by simp

lemma rq_bytes_simps [simp]:
  "rq_bytes [] = 0" "rq_bytes (b # bs) = seg_len b + rq_bytes bs"
  by (simp_all add: rq_bytes_def)

lemma seg_addrs_simps [simp]:
  "seg_addrs [] = []"
  "seg_addrs (b # bs) = [seg_buf b..<seg_buf b + seg_len b] @ seg_addrs bs"
  by (simp_all add: seg_addrs_def)

lemma length_seg_addrs [simp]: "length (seg_addrs segs) = rq_bytes segs"
  by (induction segs) simp_all

lemma length_rq_buffers [simp]: "length (rq_buffers mem segs) = rq_bytes segs"
  by (simp add: rq_buffers_def)

lemma rq_bytes_append: "rq_bytes (xs @ ys) = rq_bytes xs + rq_bytes ys"
  by (simp add: rq_bytes_def)

lemma rq_bytes_take_mono: "i \<le> j \<Longrightarrow> rq_bytes (take i segs) \<le> rq_bytes (take j segs)"
proof -
  assume "i \<le> j"
  then have "take j segs = take i segs @ take (j - i) (drop i segs)"
    by (metis le_add_diff_inverse take_add)
  then show ?thesis by (simp add: rq_bytes_append)
qed

text \<open>The loop refines the copy of the fitting segments.\<close>

lemma ramdisk_segments_fitting:
  assumes "p < 2 ^ 62" "size_rd dev < 2 ^ 62"
  shows "ramdisk_segments dir (int p) segs dev mem =
     Some (if fitting (size_rd dev) p segs = length segs then BLK_STS_OK else BLK_STS_IOERR,
           dev\<lparr>data := fst (copy_segments dir p (take (fitting (size_rd dev) p segs) segs)
                                (data dev, mem))\<rparr>,
           snd (copy_segments dir p (take (fitting (size_rd dev) p segs) segs) (data dev, mem)))"
  using assms
proof (induction segs arbitrary: p dev mem)
  case Nil
  then show ?case by simp
next
  case (Cons b bs)
  let ?len = "seg_len b" and ?sz = "size_rd dev"
  have l: "?len < 2 ^ 32" by (rule seg_len_bound)
  have "is_s64 (int p + int ?len)" using Cons.prems(1) l by (simp add: is_s64_def)
  then have s1: "s64 (int p + int ?len) = int (p + ?len)" using s64_id by simp
  have "is_s64 (int ?sz)" using Cons.prems(2) by (simp add: is_s64_def)
  then have s2: "s64 (int ?sz) = int ?sz" by (rule s64_id)
  show ?case
  proof (cases "p + ?len > ?sz")
    case True
    then show ?thesis by (simp add: Let_def s1 s2)
  next
    case False
    then have fit: "p + ?len \<le> ?sz" and nf: "\<not> ?sz < p + ?len" by simp_all
    then have p': "p + ?len < 2 ^ 62" using Cons.prems(2) by simp
    show ?thesis
    proof (cases "dir = WRITE")
      case True
      let ?dev = "dev\<lparr>data := memcpy (data dev) p mem (seg_buf b) ?len\<rparr>"
      have sz: "size_rd ?dev = ?sz" by simp
      have "size_rd ?dev < 2 ^ 62" using Cons.prems(2) by simp
      from Cons.IH[OF p' this, of mem]
      show ?thesis using fit nf True by (simp add: Let_def s1 s2)
    next
      case False
      from Cons.IH[OF p' Cons.prems(2), of "memcpy mem (seg_buf b) (data dev) p ?len"]
      show ?thesis using fit nf False by (simp add: Let_def s1 s2)
    qed
  qed
qed


lemma fitting_all: "p + rq_bytes segs \<le> sz \<Longrightarrow> fitting sz p segs = length segs"
  by (induction segs arbitrary: p) (simp_all add: add.assoc)




lemma rq_buffers_Cons:
  "rq_buffers m (b # bs) = map m [seg_buf b..<seg_buf b + seg_len b] @ rq_buffers m bs"
  by (simp add: rq_buffers_def)

lemma copy_segments_write:
  "copy_segments WRITE p segs (d, m) =
     ((\<lambda>a. if p \<le> a \<and> a < p + rq_bytes segs then rq_buffers m segs ! (a - p) else d a), m)"
proof (induction segs arbitrary: p d)
  case Nil
  show ?case by (auto simp: fun_eq_iff)
next
  case (Cons b bs)
  let ?len = "seg_len b"
  have "(\<lambda>a. if p + ?len \<le> a \<and> a < p + ?len + rq_bytes bs
              then rq_buffers m bs ! (a - (p + ?len))
              else memcpy d p m (seg_buf b) ?len a) =
        (\<lambda>a. if p \<le> a \<and> a < p + (?len + rq_bytes bs)
              then rq_buffers m (b # bs) ! (a - p) else d a)"
  proof
    fix a
    show "(if p + ?len \<le> a \<and> a < p + ?len + rq_bytes bs
              then rq_buffers m bs ! (a - (p + ?len))
              else memcpy d p m (seg_buf b) ?len a) =
          (if p \<le> a \<and> a < p + (?len + rq_bytes bs)
              then rq_buffers m (b # bs) ! (a - p) else d a)"
    proof (cases "p \<le> a \<and> a < p + ?len")
      case True
      then have ap: "a - p < ?len" by linarith
      then have "rq_buffers m (b # bs) ! (a - p) = m (seg_buf b + (a - p))"
        by (simp add: rq_buffers_Cons nth_append)
      then show ?thesis using True by (simp add: memcpy_def)
    next
      case False
      show ?thesis
      proof (cases "p + ?len \<le> a \<and> a < p + ?len + rq_bytes bs")
        case True
        then have "\<not> a - p < ?len" by linarith
        then have "rq_buffers m (b # bs) ! (a - p) = rq_buffers m bs ! (a - p - ?len)"
          by (simp add: rq_buffers_Cons nth_append)
        then show ?thesis using True by simp
      next
        case False2: False
        then show ?thesis using False by (auto simp: memcpy_def)
      qed
    qed
  qed
  then show ?case using Cons.IH[of "p + ?len" "memcpy d p m (seg_buf b) ?len"] by simp
qed

lemma copy_segments_read_fst: "fst (copy_segments READ p segs (d, m)) = d"
  by (induction segs arbitrary: p m) simp_all

lemma copy_segments_read_other:
  "a \<notin> set (seg_addrs segs) \<Longrightarrow> snd (copy_segments READ p segs (d, m)) a = m a"
  by (induction segs arbitrary: p m) (auto simp: memcpy_def)

lemma copy_segments_read:
  "distinct (seg_addrs segs) \<Longrightarrow>
   rq_buffers (snd (copy_segments READ p segs (d, m))) segs = map d [p..<p + rq_bytes segs]"
proof (induction segs arbitrary: p m)
  case Nil
  then show ?case by (simp add: rq_buffers_def)
next
  case (Cons b bs)
  let ?len = "seg_len b" and ?buf = "seg_buf b"
  let ?m1 = "memcpy m ?buf d p ?len"
  let ?m' = "snd (copy_segments READ (p + ?len) bs (d, ?m1))"
  have dis: "distinct (seg_addrs bs)" and
    sep: "\<And>a. a \<in> set [?buf..<?buf + ?len] \<Longrightarrow> a \<notin> set (seg_addrs bs)"
    using Cons.prems by auto
  have first: "map ?m' [?buf..<?buf + ?len] = map d [p..<p + ?len]"
  proof (rule nth_equalityI)
    show "length (map ?m' [?buf..<?buf + ?len]) = length (map d [p..<p + ?len])" by simp
  next
    fix i assume "i < length (map ?m' [?buf..<?buf + ?len])"
    then have i: "i < ?len" by simp
    then have "?buf + i \<in> set [?buf..<?buf + ?len]" by simp
    then have "?m' (?buf + i) = ?m1 (?buf + i)"
      using copy_segments_read_other[OF sep] by simp
    also have "\<dots> = d (p + i)" using i by (simp add: memcpy_def)
    finally show "map ?m' [?buf..<?buf + ?len] ! i = map d [p..<p + ?len] ! i"
      using i by simp
  qed
  have rest: "rq_buffers ?m' bs = map d [p + ?len..<p + ?len + rq_bytes bs]"
    by (rule Cons.IH[OF dis])
  have "[p..<p + ?len + rq_bytes bs] = [p..<p + ?len] @ [p + ?len..<p + ?len + rq_bytes bs]"
    by (rule upt_add_eq_append) simp
  then have "map d [p..<p + (?len + rq_bytes bs)]
        = map d [p..<p + ?len] @ map d [p + ?len..<p + ?len + rq_bytes bs]"
    by (simp only: add.assoc map_append)
  then show ?case using first rest by (simp add: rq_buffers_Cons)
qed

lemma queue_rq_start:
  assumes "rq_start rq < 2 ^ 62"
  shows "s64 (int (unat (rq_sector rq)) * 2 ^ SECTOR_SHIFT) = int (rq_start rq)"
proof -
  have e: "int (unat (rq_sector rq)) * 2 ^ SECTOR_SHIFT = int (rq_start rq)"
    by (simp add: rq_start_def SECTOR_SHIFT_def)
  have "is_s64 (int (rq_start rq))" using assms by (simp add: is_s64_def)
  then show ?thesis unfolding e by (rule s64_id)
qed

lemma queue_rq_fitting:
  assumes "size_rd dev = DISK_SIZE" "rq_start rq < 2 ^ 62"
  shows "ramdisk_queue_rq dev mem rq =
     Some (if fitting DISK_SIZE (rq_start rq) (segments rq) = length (segments rq)
           then BLK_STS_OK else BLK_STS_IOERR,
           dev\<lparr>data := fst (copy_segments (rq_data_dir rq) (rq_start rq)
                                (take (fitting DISK_SIZE (rq_start rq) (segments rq)) (segments rq))
                                (data dev, mem))\<rparr>,
           snd (copy_segments (rq_data_dir rq) (rq_start rq)
                  (take (fitting DISK_SIZE (rq_start rq) (segments rq)) (segments rq))
                  (data dev, mem)))"
proof -
  have "size_rd dev < 2 ^ 62" using assms(1) by (simp add: DISK_SIZE_def DISK_SIZE_MB_def)
  from ramdisk_segments_fitting[OF assms(2) this, of "rq_data_dir rq" "segments rq" mem]
  show ?thesis
    unfolding ramdisk_queue_rq_def queue_rq_start[OF assms(2)] using assms(1) by simp
qed

lemma disk_start_small: "p + n \<le> DISK_SIZE \<Longrightarrow> p < 2 ^ 62"
  by (simp add: DISK_SIZE_def DISK_SIZE_MB_def)

lemma queue_rq_ok:
  assumes "size_rd dev = DISK_SIZE" "rq_start rq + rq_bytes (segments rq) \<le> DISK_SIZE"
  shows "ramdisk_queue_rq dev mem rq =
      Some (BLK_STS_OK,
            dev\<lparr>data := fst (copy_segments (rq_data_dir rq) (rq_start rq) (segments rq)
                                 (data dev, mem))\<rparr>,
            snd (copy_segments (rq_data_dir rq) (rq_start rq) (segments rq) (data dev, mem)))"
  using queue_rq_fitting[OF assms(1) disk_start_small[OF assms(2)], of mem]
    fitting_all[OF assms(2)]
  by simp

lemma queue_rq_write:
  assumes "size_rd dev = DISK_SIZE" "rq_start rq + rq_bytes (segments rq) \<le> DISK_SIZE"
    "rq_data_dir rq = WRITE"
  shows "\<exists>dev'. ramdisk_queue_rq dev mem rq = Some (BLK_STS_OK, dev', mem) \<and>
          size_rd dev' = size_rd dev \<and>
          (\<forall>a. data dev' a =
             (if rq_start rq \<le> a \<and> a < rq_start rq + rq_bytes (segments rq)
              then rq_buffers mem (segments rq) ! (a - rq_start rq) else data dev a))"
  using queue_rq_ok[OF assms(1,2), of mem] assms(3)
  by (simp add: copy_segments_write)

lemma queue_rq_read:
  assumes "size_rd dev = DISK_SIZE" "rq_start rq + rq_bytes (segments rq) \<le> DISK_SIZE"
    "rq_data_dir rq = READ" "distinct (seg_addrs (segments rq))"
  shows "\<exists>mem'. ramdisk_queue_rq dev mem rq = Some (BLK_STS_OK, dev, mem') \<and>
          rq_buffers mem' (segments rq) =
            map (data dev) [rq_start rq..<rq_start rq + rq_bytes (segments rq)] \<and>
          (\<forall>a. a \<notin> set (seg_addrs (segments rq)) \<longrightarrow> mem' a = mem a)"
  using queue_rq_ok[OF assms(1,2), of mem] assms(3)
    copy_segments_read[OF assms(4), of "rq_start rq" "data dev" mem]
    copy_segments_read_other[of _ "segments rq" "rq_start rq" "data dev" mem]
  by (simp add: copy_segments_read_fst)

lemma queue_rq_roundtrip:
  assumes sz: "size_rd dev = DISK_SIZE" and fit: "rq_start rq + rq_bytes (segments rq) \<le> DISK_SIZE"
    and w: "rq_data_dir rq = WRITE" and r: "rq_data_dir rq2 = READ"
    and same: "rq_sector rq2 = rq_sector rq" "rq_bytes (segments rq2) = rq_bytes (segments rq)"
    and dis: "distinct (seg_addrs (segments rq2))"
  shows "\<exists>dev' mem2. ramdisk_queue_rq dev mem rq = Some (BLK_STS_OK, dev', mem) \<and>
                    ramdisk_queue_rq dev' mem rq2 = Some (BLK_STS_OK, dev', mem2) \<and>
                    rq_buffers mem2 (segments rq2) = rq_buffers mem (segments rq)"
proof -
  let ?s = "rq_start rq" and ?n = "rq_bytes (segments rq)"
  obtain dev' where wr: "ramdisk_queue_rq dev mem rq = Some (BLK_STS_OK, dev', mem)"
    "size_rd dev' = size_rd dev"
    "\<And>a. data dev' a = (if ?s \<le> a \<and> a < ?s + ?n then rq_buffers mem (segments rq) ! (a - ?s)
                        else data dev a)"
    using queue_rq_write[OF sz fit w, of mem] by blast
  have s2: "rq_start rq2 = ?s" using same(1) by (simp add: rq_start_def)
  have fit2: "rq_start rq2 + rq_bytes (segments rq2) \<le> DISK_SIZE" using fit s2 same(2) by simp
  have sz': "size_rd dev' = DISK_SIZE" using wr(2) sz by simp
  obtain mem2 where rd: "ramdisk_queue_rq dev' mem rq2 = Some (BLK_STS_OK, dev', mem2)"
    "rq_buffers mem2 (segments rq2) = map (data dev') [?s..<?s + ?n]"
    using queue_rq_read[OF sz' fit2 r dis, of mem] s2 same(2) by auto
  have "map (data dev') [?s..<?s + ?n] = rq_buffers mem (segments rq)"
    by (rule nth_equalityI) (simp_all add: wr(3))
  then show ?thesis using wr(1) rd by auto
qed

text \<open>
  Claim C3. For a request all of whose segments lie within the 16 MB of the RAM disk,
  \<open>ramdisk_queue_rq\<close> ends with \<open>BLK_STS_OK\<close> and has copied segment after
  segment, in order, at the byte position \<open>sector * 512\<close> advanced by the length of
  each segment: into the backing store for a write, out of it for a read. After a write
  the backing store holds the bytes of the request's buffers in the written range and is
  unchanged outside it, and the page memory is unchanged. A read whose buffers do not
  overlap leaves the device unchanged, fills the buffers with the bytes of the range and
  changes no other memory. So a write followed by a read of the same range into
  buffers that do not overlap returns exactly the bytes written.
\<close>

theorem ramdisk_in_bounds:
  assumes sz: "size_rd dev = DISK_SIZE"
    and fit: "rq_start rq + rq_bytes (segments rq) \<le> DISK_SIZE"
  shows
   "ramdisk_queue_rq dev mem rq =
      Some (BLK_STS_OK,
            dev\<lparr>data := fst (copy_segments (rq_data_dir rq) (rq_start rq) (segments rq)
                                 (data dev, mem))\<rparr>,
            snd (copy_segments (rq_data_dir rq) (rq_start rq) (segments rq) (data dev, mem))) \<and>
    (rq_data_dir rq = WRITE \<longrightarrow>
       (\<exists>dev'. ramdisk_queue_rq dev mem rq = Some (BLK_STS_OK, dev', mem) \<and>
          size_rd dev' = size_rd dev \<and>
          (\<forall>a. data dev' a =
             (if rq_start rq \<le> a \<and> a < rq_start rq + rq_bytes (segments rq)
              then rq_buffers mem (segments rq) ! (a - rq_start rq) else data dev a)))) \<and>
    (rq_data_dir rq = READ \<and> distinct (seg_addrs (segments rq)) \<longrightarrow>
       (\<exists>mem'. ramdisk_queue_rq dev mem rq = Some (BLK_STS_OK, dev, mem') \<and>
          rq_buffers mem' (segments rq) =
            map (data dev) [rq_start rq..<rq_start rq + rq_bytes (segments rq)] \<and>
          (\<forall>a. a \<notin> set (seg_addrs (segments rq)) \<longrightarrow> mem' a = mem a))) \<and>
    (rq_data_dir rq = WRITE \<and> rq_data_dir rq2 = READ \<and> rq_sector rq2 = rq_sector rq \<and>
     rq_bytes (segments rq2) = rq_bytes (segments rq) \<and> distinct (seg_addrs (segments rq2)) \<longrightarrow>
       (\<exists>dev' mem2. ramdisk_queue_rq dev mem rq = Some (BLK_STS_OK, dev', mem) \<and>
                    ramdisk_queue_rq dev' mem rq2 = Some (BLK_STS_OK, dev', mem2) \<and>
                    rq_buffers mem2 (segments rq2) = rq_buffers mem (segments rq)))"
  using queue_rq_ok[OF sz fit, of mem] queue_rq_write[OF sz fit, of mem]
    queue_rq_read[OF sz fit, of mem] queue_rq_roundtrip[OF sz fit, of rq2 mem]
  by blast


lemma init_dev_size: "size_rd ramdisk_init_dev = DISK_SIZE"
  by (simp add: ramdisk_init_dev_def)

lemma write_rq_facts:
  "rq_start write_rq = 1024" "rq_bytes (segments write_rq) = 3" "rq_data_dir write_rq = WRITE"
  "seg_addrs (segments write_rq) = [4112..<4114] @ [12288..<12289]"
  by (simp_all add: write_rq_def rq_start_def seg_len_def seg_buf_def kmap_local_page_def
        PAGE_SIZE_def)

lemma read_rq_facts:
  "rq_sector read_rq = rq_sector write_rq" "rq_bytes (segments read_rq) = 3"
  "rq_data_dir read_rq = READ"
  "seg_addrs (segments read_rq) = [20480..<20481] @ [24584..<24586]"
  by (simp_all add: read_rq_def write_rq_def seg_len_def seg_buf_def kmap_local_page_def
        PAGE_SIZE_def)

lemma read_rq_distinct: "distinct (seg_addrs (segments read_rq))"
  unfolding read_rq_facts(4) by (simp only: distinct_append distinct_upt set_upt) auto

lemma write_rq_fits: "rq_start write_rq + rq_bytes (segments write_rq) \<le> DISK_SIZE"
  by (simp add: write_rq_facts DISK_SIZE_def DISK_SIZE_MB_def)

theorem ramdisk_in_bounds_witness:
  "size_rd ramdisk_init_dev = DISK_SIZE \<and>
   (\<exists>dev' mem2.
      ramdisk_queue_rq ramdisk_init_dev mem_example write_rq = Some (BLK_STS_OK, dev', mem_example) \<and>
      ramdisk_queue_rq dev' mem_example read_rq = Some (BLK_STS_OK, dev', mem2) \<and>
      rq_buffers mem2 (segments read_rq) = rq_buffers mem_example (segments write_rq) \<and>
      data dev' 1023 = 0 \<and> data dev' 1025 = 17 \<and> data dev' 1027 = 0)"
proof -
  note th = ramdisk_in_bounds[OF init_dev_size write_rq_fits, of mem_example read_rq]
  from th write_rq_facts(3) read_rq_facts(1,2,3) write_rq_facts(2) read_rq_distinct
  obtain dev' mem2 where
    rt: "ramdisk_queue_rq ramdisk_init_dev mem_example write_rq = Some (BLK_STS_OK, dev', mem_example)"
    "ramdisk_queue_rq dev' mem_example read_rq = Some (BLK_STS_OK, dev', mem2)"
    "rq_buffers mem2 (segments read_rq) = rq_buffers mem_example (segments write_rq)"
    by auto
  from th write_rq_facts(3) obtain dev'' where
    w: "ramdisk_queue_rq ramdisk_init_dev mem_example write_rq = Some (BLK_STS_OK, dev'', mem_example)"
    "\<forall>a. data dev'' a =
             (if rq_start write_rq \<le> a \<and> a < rq_start write_rq + rq_bytes (segments write_rq)
              then rq_buffers mem_example (segments write_rq) ! (a - rq_start write_rq)
              else data ramdisk_init_dev a)"
    by blast
  have eq: "dev'' = dev'" using rt(1) w(1) by simp
  have b: "rq_buffers mem_example (segments write_rq) ! 1 = 17"
    by (simp add: rq_buffers_def write_rq_facts(4) mem_example_def nth_append)
  have v: "data dev' 1023 = 0 \<and> data dev' 1025 = 17 \<and> data dev' 1027 = 0"
    using w(2) b unfolding eq by (simp add: write_rq_facts ramdisk_init_dev_def)
  show ?thesis using init_dev_size rt v by blast
qed




end
